theory Spec2Isabelle
  imports Main
begin

section \<open>Python values, exceptions and the heap\<close>

text \<open>
  A class object, as far as the code observes it: its identity (two classes are equal
  only when they are the same object), its \<^verbatim>\<open>__name__\<close> and its rendering under
  \<^verbatim>\<open>str()\<close>.
\<close>

datatype pyclass = PyClass (cls_ident: nat) (cls_name: string) (cls_str: string)

text \<open>
  The values that flow through the stores and the registry. \<open>PyNone\<close> is Python's
  \<^verbatim>\<open>None\<close>, the absence sentinel; \<open>PyStr\<close> is a \<^verbatim>\<open>str\<close> (a byte string).
\<close>

datatype pyval = PyNone | PyBool bool | PyStr string | PyCls pyclass

text \<open>\<^verbatim>\<open>str(x)\<close>; the identity on a \<^verbatim>\<open>str\<close>.\<close>

fun py_str :: "pyval \<Rightarrow> string" where
  "py_str PyNone = ''None''"
| "py_str (PyBool b) = (if b then ''True'' else ''False'')"
| "py_str (PyStr s) = s"
| "py_str (PyCls c) = cls_str c"

text \<open>Truthiness, as \<^verbatim>\<open>if x\<close> tests it.\<close>

fun truthy :: "pyval \<Rightarrow> bool" where
  "truthy PyNone = False"
| "truthy (PyBool b) = b"
| "truthy (PyStr s) = (s \<noteq> [])"
| "truthy (PyCls c) = True"

text \<open>
  Exceptions are values. \<open>KeyError\<close> carries the missing key (a failed dictionary
  lookup) or the message given to it; \<open>TypeError\<close> and \<open>Exception\<close> carry
  their message; \<open>OSError\<close> carries the path; \<open>Raised\<close> is whatever a
  schema-supplied load or save function raises.
\<close>

datatype error =
    KeyError string
  | TypeError string
  | Exception string
  | AttributeError string
  | AssertionError
  | OSError string
  | Raised string

text \<open>
  A dictionary object with string keys, and the heap of the dictionary objects that the
  backing document is made of. Every reference points to a live object, so the heap is
  total; an address nothing refers to holds the empty dictionary.
\<close>

type_synonym addr = nat
type_synonym pydict = "string \<rightharpoonup> pyval"
type_synonym heap = "addr \<Rightarrow> pydict"

text \<open>
  The backing document \<^verbatim>\<open>mongo_doc\<close>: \<^verbatim>\<open>mongo_doc['root']\<close>, and the
  dictionaries \<^verbatim>\<open>mongo_doc['items']\<close> and \<^verbatim>\<open>mongo_doc['children']\<close>, whose values are
  references to the per-item metadata dictionaries and to the per-type address tables.
  The code never writes to these three; it writes to the objects they refer to, which
  live in the heap.
\<close>

record mongo_document =
  root :: string
  items :: "string \<rightharpoonup> addr"
  children :: "string \<rightharpoonup> addr"

text \<open>The part of the world every object of this development can reach: the heap.\<close>

record pyworld =
  heap :: heap

text \<open>\<^verbatim>\<open>s.startswith(p)\<close>\<close>

definition startswith :: "string \<Rightarrow> string \<Rightarrow> bool" where
  "startswith s p = (take (length p) s = p)"

section \<open>ChildContainer\<close>

record child_container = pyworld +
  parent_id :: string
  parent_prefix :: string
  childtypes :: "pyclass list"
  childtype_dicts :: "string \<rightharpoonup> addr"

text \<open>The class attribute \<^verbatim>\<open>id_joiner = '/'\<close>.\<close>

definition id_joiner :: string where
  "id_joiner = ''/''"

record container_schema =
  contains :: "pyclass list"

text \<open>
  \<^verbatim>\<open>ChildContainer.__init__(parent_id, schema, mongo_doc)\<close>, run in heap \<open>h\<close>. The
  loop of assertions fails at the first child type whose name has no table.
\<close>

definition ChildContainer_init ::
  "string \<Rightarrow> container_schema \<Rightarrow> mongo_document \<Rightarrow> heap \<Rightarrow> error + child_container" where
  "ChildContainer_init pid schema mongo_doc h =
     (if \<exists>c \<in> set (contains schema). children mongo_doc (cls_name c) = None
      then Inl AssertionError
      else Inr \<lparr> heap = h,
                 parent_id = pid,
                 parent_prefix = pid @ id_joiner,
                 childtypes = contains schema,
                 childtype_dicts = children mongo_doc \<rparr>)"

definition no_childtypes :: "child_container \<Rightarrow> bool" where
  "no_childtypes c = (length (childtypes c) = 0)"

definition is_valid_childtype :: "child_container \<Rightarrow> pyval \<Rightarrow> bool" where
  "is_valid_childtype c datatype =
     (case datatype of PyCls t \<Rightarrow> t \<in> set (childtypes c) | _ \<Rightarrow> False)"

definition get_only_childtype :: "child_container \<Rightarrow> error + pyclass" where
  "get_only_childtype c =
     (if \<not> length (childtypes c) = 1
      then Inl (Exception ''You need to specify the child's datatype'')
      else Inr (childtypes c ! 0))"

definition is_full_id :: "child_container \<Rightarrow> string \<Rightarrow> bool" where
  "is_full_id c s = startswith s (parent_prefix c)"

definition is_raw_id :: "child_container \<Rightarrow> string \<Rightarrow> bool" where
  "is_raw_id c s = (\<not> is_full_id c s)"

definition to_raw_id :: "child_container \<Rightarrow> pyval \<Rightarrow> string" where
  "to_raw_id c x =
     (let s = py_str x in
      if is_full_id c s then drop (length (parent_prefix c)) s else s)"

definition to_full_id :: "child_container \<Rightarrow> pyval \<Rightarrow> string" where
  "to_full_id c x =
     (let s = py_str x in
      if is_raw_id c s then parent_prefix c @ s else s)"

definition get_childtype_dict :: "child_container \<Rightarrow> pyclass \<Rightarrow> error + addr" where
  "get_childtype_dict c t =
     (case childtype_dicts c (cls_name t) of
        None \<Rightarrow> Inl (KeyError (cls_name t))
      | Some a \<Rightarrow> Inr a)"

text \<open>
  \<^verbatim>\<open>sanitize(*args)\<close>. In the two-argument case an object that is no class at all
  has no \<^verbatim>\<open>__name__\<close>, so building the message of the \<^verbatim>\<open>TypeError\<close> raises
  \<^verbatim>\<open>AttributeError\<close> instead.
\<close>

definition sanitize :: "child_container \<Rightarrow> pyval list \<Rightarrow> error + pyclass \<times> string" where
  "sanitize c args =
     (if length (childtypes c) = 0
      then Inl (Exception ''No childtypes defined in Schema; operation illegal'')
      else if length args = 1 then
        (if \<not> length (childtypes c) = 1
         then Inl (TypeError ''Multiple childtypes exist; need to specify one'')
         else (case get_only_childtype c of
                 Inl e \<Rightarrow> Inl e
               | Inr t \<Rightarrow> Inr (t, to_raw_id c (args ! 0))))
      else if length args = 2 then
        (if \<not> is_valid_childtype c (args ! 0)
         then (case args ! 0 of
                 PyCls t \<Rightarrow> Inl (TypeError (''Not a valid childtype: '' @ cls_name t))
               | _ \<Rightarrow> Inl (AttributeError ''__name__''))
         else (case args ! 0 of
                 PyCls t \<Rightarrow> Inr (t, to_raw_id c (args ! 1))
               | _ \<Rightarrow> Inl (AttributeError ''__name__'')))
      else Inl (Exception ''Invalid number of arguments''))"

text \<open>
  \<^verbatim>\<open>get(*args)\<close> and \<^verbatim>\<open>add(*args)\<close>. Both return the outcome together with the
  container and its heap as the call leaves them; an exception does not undo what was
  written before it.
\<close>

definition ChildContainer_get ::
  "pyval list \<Rightarrow> child_container \<Rightarrow> (error + pyclass \<times> pyval) \<times> child_container" where
  "ChildContainer_get args c =
     (case sanitize c args of
        Inl e \<Rightarrow> (Inl e, c)
      | Inr (childtype, raw_id) \<Rightarrow>
          (case get_childtype_dict c childtype of
             Inl e \<Rightarrow> (Inl e, c)
           | Inr childtype_dict \<Rightarrow>
               (case heap c childtype_dict raw_id of
                  None \<Rightarrow> (Inl (KeyError raw_id), c)
                | Some full_id \<Rightarrow> (Inr (childtype, full_id), c))))"

definition ChildContainer_add ::
  "pyval list \<Rightarrow> child_container \<Rightarrow> (error + unit) \<times> child_container" where
  "ChildContainer_add args c =
     (case sanitize c args of
        Inl e \<Rightarrow> (Inl e, c)
      | Inr (childtype, raw_id) \<Rightarrow>
          (let full_id = to_full_id c (PyStr raw_id) in
           case get_childtype_dict c childtype of
             Inl e \<Rightarrow> (Inl e, c)
           | Inr childtype_dict \<Rightarrow>
               (Inr (),
                c\<lparr>heap := (heap c)(childtype_dict :=
                     (heap c childtype_dict)(raw_id \<mapsto> PyStr full_id))\<rparr>)))"

section \<open>The filesystem\<close>

text \<open>
  A path names a regular file (with its contents), a directory, or nothing.
  \<^verbatim>\<open>os.path.exists\<close> holds of files and directories; \<^verbatim>\<open>os.remove\<close> removes a
  regular file and raises \<^verbatim>\<open>OSError\<close> on a directory and on a missing path.
\<close>

datatype fsnode = File string | Dir

type_synonym filesys = "string \<rightharpoonup> fsnode"

definition os_path_exists :: "filesys \<Rightarrow> string \<Rightarrow> bool" where
  "os_path_exists f p = (f p \<noteq> None)"

definition os_remove :: "string \<Rightarrow> filesys \<Rightarrow> (error + unit) \<times> filesys" where
  "os_remove p f =
     (case f p of
        Some (File _) \<Rightarrow> (Inr (), f(p := None))
      | _ \<Rightarrow> (Inl (OSError p), f))"

text \<open>\<^verbatim>\<open>os.path.join(a, b)\<close> of \<^verbatim>\<open>posixpath\<close>, for two components.\<close>

definition os_path_join :: "string \<Rightarrow> string \<Rightarrow> string" where
  "os_path_join a b =
     (if startswith b ''/'' then b
      else if a = [] \<or> last a = CHR ''/'' then a @ b
      else a @ ''/'' @ b)"

section \<open>Calls that may raise and that change the state\<close>

text \<open>
  A method is a function from the state before the call to the outcome (an exception or
  the returned value) and the state after the call. An exception keeps every write made
  before it was raised.
\<close>

type_synonym ('a, 's) py = "'s \<Rightarrow> (error + 'a) \<times> 's"

definition py_return :: "'a \<Rightarrow> ('a, 's) py" where
  "py_return x = (\<lambda>s. (Inr x, s))"

definition py_raise :: "error \<Rightarrow> ('a, 's) py" where
  "py_raise e = (\<lambda>s. (Inl e, s))"

definition py_bind :: "('a, 's) py \<Rightarrow> ('a \<Rightarrow> ('b, 's) py) \<Rightarrow> ('b, 's) py" where
  "py_bind m f = (\<lambda>s. case m s of (Inl e, s') \<Rightarrow> (Inl e, s') | (Inr x, s') \<Rightarrow> f x s')"

text \<open>
  A dictionary comprehension \<^verbatim>\<open>{k: f(k) for k in ks}\<close>: the first key whose value
  raises ends it.
\<close>

fun dict_comp :: "(string \<Rightarrow> error + 'v) \<Rightarrow> string list \<Rightarrow> error + (string \<rightharpoonup> 'v)" where
  "dict_comp f [] = Inr Map.empty"
| "dict_comp f (k # ks) =
     (case f k of
        Inl e \<Rightarrow> Inl e
      | Inr v \<Rightarrow> (case dict_comp f ks of Inl e \<Rightarrow> Inl e | Inr m \<Rightarrow> Inr (m(k \<mapsto> v))))"

text \<open>A subscript \<^verbatim>\<open>d[k]\<close> on a dictionary held by value.\<close>

definition subscript :: "(string \<rightharpoonup> 'v) \<Rightarrow> string \<Rightarrow> error + 'v" where
  "subscript d k = (case d k of None \<Rightarrow> Inl (KeyError k) | Some v \<Rightarrow> Inr v)"

section \<open>ModalDict\<close>

text \<open>
  What the schema supplies for a disk item: a load function, which reads the filesystem
  at a path and returns a value or raises, and a save function, which may be \<^verbatim>\<open>None\<close>
  and otherwise writes a value at a path, changing the filesystem (also when it raises).
  Neither touches the heap of the document.
\<close>

type_synonym load_fn = "filesys \<Rightarrow> string \<Rightarrow> error + pyval"

datatype save_fn =
    SaveNone
  | SaveFn "pyval \<Rightarrow> string \<Rightarrow> filesys \<Rightarrow> (error + unit) \<times> filesys"

text \<open>
  One entry of \<^verbatim>\<open>datatype_schema\<close>: its \<^verbatim>\<open>'mode'\<close>, and the entries a disk item
  has (\<open>None\<close> when the entry's dictionary has no such key).
\<close>

record item_schema =
  mode :: string
  filename :: "string option"
  load_func :: "load_fn option"
  save_func :: "save_fn option"

text \<open>
  \<^verbatim>\<open>datatype_schema\<close>, in the order \<^verbatim>\<open>.items()\<close> enumerates it.
\<close>

type_synonym datatype_schema = "(string \<times> item_schema) list"

text \<open>
  The state of a \<^verbatim>\<open>ModalDict\<close>: the heap and the object's attributes. \<open>keys\<close> is
  the set \<^verbatim>\<open>self.keys\<close> in the order in which Python iterates over it.
  \<^verbatim>\<open>self.metadata\<close> and \<^verbatim>\<open>self.data\<close> are dictionaries the object creates itself;
  the values of \<^verbatim>\<open>self.metadata\<close> are references to the dictionaries
  \<^verbatim>\<open>mongo_doc['items'][k]\<close> of the document.
\<close>

record modal_dict = pyworld +
  mongo_doc :: mongo_document
  keys :: "string list"
  metadata :: "string \<rightharpoonup> addr"
  data :: "string \<rightharpoonup> pyval"

text \<open>\<^verbatim>\<open>ModalDict.__init__\<close>, for the class attribute \<^verbatim>\<open>mode\<close> \<open>m\<close> (never \<^verbatim>\<open>None\<close>).\<close>

definition ModalDict_init ::
  "string \<Rightarrow> mongo_document \<Rightarrow> datatype_schema \<Rightarrow> (unit, 'a modal_dict_scheme) py" where
  "ModalDict_init m doc schema s =
     (let ks = remdups (map fst (filter (\<lambda>(k, v). mode v = m) schema));
          s1 = s\<lparr>mongo_doc := doc, keys := ks\<rparr>
      in case dict_comp (subscript (items doc)) ks of
           Inl e \<Rightarrow> (Inl e, s1)
         | Inr md \<Rightarrow>
             (case dict_comp (\<lambda>k. Inr PyNone) ks of
                Inl e \<Rightarrow> (Inl e, s1\<lparr>metadata := md\<rparr>)
              | Inr d \<Rightarrow> (Inr (), s1\<lparr>metadata := md, data := d\<rparr>)))"

text \<open>\<^verbatim>\<open>self.metadata[key][field] = v\<close>: a write into a dictionary of the document.\<close>

definition metadata_setitem :: "string \<Rightarrow> string \<Rightarrow> pyval \<Rightarrow> (unit, 'a modal_dict_scheme) py" where
  "metadata_setitem key field v s =
     (case metadata s key of
        None \<Rightarrow> (Inl (KeyError key), s)
      | Some a \<Rightarrow> (Inr (), s\<lparr>heap := (heap s)(a := (heap s a)(field \<mapsto> v))\<rparr>))"

text \<open>\<^verbatim>\<open>self.metadata[key][field]\<close>\<close>

definition metadata_getitem :: "string \<Rightarrow> string \<Rightarrow> 'a modal_dict_scheme \<Rightarrow> error + pyval" where
  "metadata_getitem key field s =
     (case metadata s key of
        None \<Rightarrow> Inl (KeyError key)
      | Some a \<Rightarrow> subscript (heap s a) field)"

text \<open>
  \<^verbatim>\<open>update_item_metadata\<close>: the loop over \<^verbatim>\<open>self.keys\<close>, with the subclass's
  \<^verbatim>\<open>item_present\<close> as a parameter.
\<close>

fun update_loop ::
  "(string \<Rightarrow> (bool, 'a modal_dict_scheme) py) \<Rightarrow> string list \<Rightarrow> (unit, 'a modal_dict_scheme) py" where
  "update_loop item_present [] = py_return ()"
| "update_loop item_present (k # ks) =
     py_bind (item_present k) (\<lambda>b.
     py_bind (metadata_setitem k ''present'' (PyBool b)) (\<lambda>_.
     update_loop item_present ks))"

definition update_item_metadata ::
  "(string \<Rightarrow> (bool, 'a modal_dict_scheme) py) \<Rightarrow> (unit, 'a modal_dict_scheme) py" where
  "update_item_metadata item_present s = update_loop item_present (keys s) s"

text \<open>The comprehension \<^verbatim>\<open>[k for k in self.keys if self.metadata[k]['present']]\<close>.\<close>

fun present_filter :: "string list \<Rightarrow> 'a modal_dict_scheme \<Rightarrow> error + string list" where
  "present_filter [] s = Inr []"
| "present_filter (k # ks) s =
     (case metadata_getitem k ''present'' s of
        Inl e \<Rightarrow> Inl e
      | Inr v \<Rightarrow>
          (case present_filter ks s of
             Inl e \<Rightarrow> Inl e
           | Inr r \<Rightarrow> Inr (if truthy v then k # r else r)))"

definition present_items ::
  "(string \<Rightarrow> (bool, 'a modal_dict_scheme) py) \<Rightarrow> (string set, 'a modal_dict_scheme) py" where
  "present_items item_present =
     py_bind (update_item_metadata item_present) (\<lambda>_ s.
       case present_filter (keys s) s of
         Inl e \<Rightarrow> (Inl e, s)
       | Inr r \<Rightarrow> (Inr (set r), s))"

definition absent_items ::
  "(string \<Rightarrow> (bool, 'a modal_dict_scheme) py) \<Rightarrow> (string set, 'a modal_dict_scheme) py" where
  "absent_items item_present =
     (\<lambda>s. py_bind (present_items item_present) (\<lambda>present. py_return (set (keys s) - present)) s)"

text \<open>\<^verbatim>\<open>__contains__\<close> and \<^verbatim>\<open>detect_keyerror\<close>\<close>

definition contains_key :: "string \<Rightarrow> 'a modal_dict_scheme \<Rightarrow> bool" where
  "contains_key key s = (key \<in> set (keys s))"

definition detect_keyerror :: "string \<Rightarrow> (unit, 'a modal_dict_scheme) py" where
  "detect_keyerror key s =
     (if \<not> contains_key key s then (Inl (KeyError (''No such item: '' @ key)), s)
      else (Inr (), s))"

text \<open>
  \<^verbatim>\<open>__getitem__\<close>, \<^verbatim>\<open>__setitem__\<close> and \<^verbatim>\<open>__delitem__\<close>, with the subclass's
  \<^verbatim>\<open>get_item\<close>, \<^verbatim>\<open>set_item\<close> and \<^verbatim>\<open>del_item\<close> as parameters.
\<close>

definition ModalDict_getitem ::
  "(string \<Rightarrow> (pyval, 'a modal_dict_scheme) py) \<Rightarrow> string \<Rightarrow> (pyval, 'a modal_dict_scheme) py" where
  "ModalDict_getitem get_item key =
     py_bind (detect_keyerror key) (\<lambda>_. get_item key)"

definition ModalDict_setitem ::
  "(string \<Rightarrow> pyval \<Rightarrow> (unit, 'a modal_dict_scheme) py) \<Rightarrow>
     string \<Rightarrow> pyval \<Rightarrow> (unit, 'a modal_dict_scheme) py" where
  "ModalDict_setitem set_item key v =
     py_bind (detect_keyerror key) (\<lambda>_.
     py_bind (metadata_setitem key ''present'' (PyBool True)) (\<lambda>_.
     set_item key v))"

definition ModalDict_delitem ::
  "(string \<Rightarrow> (unit, 'a modal_dict_scheme) py) \<Rightarrow> string \<Rightarrow> (unit, 'a modal_dict_scheme) py" where
  "ModalDict_delitem del_item key =
     py_bind (detect_keyerror key) (\<lambda>_.
     py_bind (metadata_setitem key ''present'' (PyBool False)) (\<lambda>_.
     del_item key))"

text \<open>\<^verbatim>\<open>self.data[key]\<close>\<close>

definition data_getitem :: "string \<Rightarrow> (pyval, 'a modal_dict_scheme) py" where
  "data_getitem key s =
     (case data s key of None \<Rightarrow> (Inl (KeyError key), s) | Some v \<Rightarrow> (Inr v, s))"

subsection \<open>MemoryDict\<close>

definition MemoryDict_get_item :: "string \<Rightarrow> (pyval, modal_dict) py" where
  "MemoryDict_get_item key = py_bind (detect_keyerror key) (\<lambda>_. data_getitem key)"

definition MemoryDict_getitem :: "string \<Rightarrow> (pyval, modal_dict) py" where
  "MemoryDict_getitem = ModalDict_getitem MemoryDict_get_item"

definition MemoryDict_item_present :: "string \<Rightarrow> (bool, modal_dict) py" where
  "MemoryDict_item_present key =
     py_bind (MemoryDict_getitem key) (\<lambda>v. py_return (\<not> v = PyNone))"

definition MemoryDict_set_item :: "string \<Rightarrow> pyval \<Rightarrow> (unit, modal_dict) py" where
  "MemoryDict_set_item key v s = (Inr (), s\<lparr>data := (data s)(key \<mapsto> v)\<rparr>)"

definition MemoryDict_del_item :: "string \<Rightarrow> (unit, modal_dict) py" where
  "MemoryDict_del_item key s = (Inr (), s\<lparr>data := (data s)(key \<mapsto> PyNone)\<rparr>)"

definition MemoryDict_setitem :: "string \<Rightarrow> pyval \<Rightarrow> (unit, modal_dict) py" where
  "MemoryDict_setitem = ModalDict_setitem MemoryDict_set_item"

definition MemoryDict_delitem :: "string \<Rightarrow> (unit, modal_dict) py" where
  "MemoryDict_delitem = ModalDict_delitem MemoryDict_del_item"

definition MemoryDict_present_items :: "(string set, modal_dict) py" where
  "MemoryDict_present_items = present_items MemoryDict_item_present"

definition MemoryDict_absent_items :: "(string set, modal_dict) py" where
  "MemoryDict_absent_items = absent_items MemoryDict_item_present"

text \<open>
  \<^verbatim>\<open>MemoryDict.__init__\<close>: the values are read from
  \<^verbatim>\<open>mongo_doc['items'][k]['data']\<close> into a dictionary of the object's own.
\<close>

definition MemoryDict_init :: "mongo_document \<Rightarrow> datatype_schema \<Rightarrow> (unit, modal_dict) py" where
  "MemoryDict_init doc schema =
     py_bind (ModalDict_init ''memory'' doc schema) (\<lambda>_.
     py_bind (\<lambda>s. case dict_comp (\<lambda>k. case subscript (items doc) k of
                                          Inl e \<Rightarrow> Inl e
                                        | Inr a \<Rightarrow> subscript (heap s a) ''data'') (keys s) of
                    Inl e \<Rightarrow> (Inl e, s)
                  | Inr d \<Rightarrow> (Inr (), s\<lparr>data := d\<rparr>)) (\<lambda>_.
     update_item_metadata MemoryDict_item_present))"

text \<open>
  \<^verbatim>\<open>MemoryDict(mongo_doc, datatype_schema)\<close> in heap \<open>h\<close>: the constructor runs on an
  object that has no attributes yet.
\<close>

definition MemoryDict_new ::
  "heap \<Rightarrow> mongo_document \<Rightarrow> datatype_schema \<Rightarrow> (error + unit) \<times> modal_dict" where
  "MemoryDict_new h doc schema =
     MemoryDict_init doc schema
       \<lparr> heap = h, mongo_doc = doc, keys = [], metadata = Map.empty, data = Map.empty \<rparr>"

subsection \<open>DiskDict\<close>

record disk_dict = modal_dict +
  fs :: filesys
  load_funcs :: "string \<rightharpoonup> load_fn"
  save_funcs :: "string \<rightharpoonup> save_fn"
  paths :: "string \<rightharpoonup> string"

definition DiskDict_item_present :: "string \<Rightarrow> (bool, disk_dict) py" where
  "DiskDict_item_present key s =
     (case paths s key of
        None \<Rightarrow> (Inl (KeyError key), s)
      | Some p \<Rightarrow> (Inr (os_path_exists (fs s) p), s))"

definition DiskDict_load_item :: "string \<Rightarrow> (unit, disk_dict) py" where
  "DiskDict_load_item key s =
     (if \<not> contains_key key s then (Inl AssertionError, s)
      else case load_funcs s key of
        None \<Rightarrow> (Inl (KeyError key), s)
      | Some f \<Rightarrow>
          (case paths s key of
             None \<Rightarrow> (Inl (KeyError key), s)
           | Some p \<Rightarrow>
               (case f (fs s) p of
                  Inl e \<Rightarrow> (Inl e, s)
                | Inr v \<Rightarrow> (Inr (), s\<lparr>data := (data s)(key \<mapsto> v)\<rparr>))))"

definition DiskDict_save_item :: "string \<Rightarrow> (unit, disk_dict) py" where
  "DiskDict_save_item key s =
     (if \<not> contains_key key s then (Inl AssertionError, s)
      else case save_funcs s key of
        None \<Rightarrow> (Inl (KeyError key), s)
      | Some SaveNone \<Rightarrow> (Inl AssertionError, s)
      | Some (SaveFn g) \<Rightarrow>
          (case data s key of
             None \<Rightarrow> (Inl (KeyError key), s)
           | Some v \<Rightarrow>
               (case paths s key of
                  None \<Rightarrow> (Inl (KeyError key), s)
                | Some p \<Rightarrow> (case g v p (fs s) of (r, f') \<Rightarrow> (r, s\<lparr>fs := f'\<rparr>)))))"

definition DiskDict_get_item :: "string \<Rightarrow> (pyval, disk_dict) py" where
  "DiskDict_get_item key =
     py_bind (data_getitem key) (\<lambda>v.
     py_bind (if v = PyNone
              then py_bind (DiskDict_item_present key) (\<lambda>b.
                     if b then DiskDict_load_item key else py_return ())
              else py_return ()) (\<lambda>_.
     data_getitem key))"

definition DiskDict_set_item :: "string \<Rightarrow> pyval \<Rightarrow> (unit, disk_dict) py" where
  "DiskDict_set_item key v =
     py_bind (\<lambda>s. (Inr (), s\<lparr>data := (data s)(key \<mapsto> v)\<rparr>)) (\<lambda>_.
     DiskDict_save_item key)"

definition DiskDict_del_item :: "string \<Rightarrow> (unit, disk_dict) py" where
  "DiskDict_del_item key =
     py_bind (\<lambda>s. case data s key of
                    None \<Rightarrow> (Inl (KeyError key), s)
                  | Some _ \<Rightarrow> (Inr (), s\<lparr>data := (data s)(key := None)\<rparr>)) (\<lambda>_.
     py_bind (\<lambda>s. case paths s key of
                    None \<Rightarrow> (Inl (KeyError key), s)
                  | Some p \<Rightarrow> (case os_remove p (fs s) of (r, f') \<Rightarrow> (r, s\<lparr>fs := f'\<rparr>))) (\<lambda>_.
     (\<lambda>s. (Inr (), s\<lparr>data := (data s)(key \<mapsto> PyNone)\<rparr>))))"

definition DiskDict_getitem :: "string \<Rightarrow> (pyval, disk_dict) py" where
  "DiskDict_getitem = ModalDict_getitem DiskDict_get_item"

definition DiskDict_setitem :: "string \<Rightarrow> pyval \<Rightarrow> (unit, disk_dict) py" where
  "DiskDict_setitem = ModalDict_setitem DiskDict_set_item"

definition DiskDict_delitem :: "string \<Rightarrow> (unit, disk_dict) py" where
  "DiskDict_delitem = ModalDict_delitem DiskDict_del_item"

definition DiskDict_present_items :: "(string set, disk_dict) py" where
  "DiskDict_present_items = present_items DiskDict_item_present"

definition DiskDict_absent_items :: "(string set, disk_dict) py" where
  "DiskDict_absent_items = absent_items DiskDict_item_present"

text \<open>
  \<^verbatim>\<open>DiskDict.__init__\<close>. \<open>schema_entry\<close> is \<^verbatim>\<open>items[k][name]\<close> for an entry of
  the schema that may be missing.
\<close>

definition schema_entry ::
  "datatype_schema \<Rightarrow> (item_schema \<Rightarrow> 'v option) \<Rightarrow> string \<Rightarrow> string \<Rightarrow> error + 'v" where
  "schema_entry schema field name k =
     (case map_of schema k of
        None \<Rightarrow> Inl (KeyError k)
      | Some v \<Rightarrow> (case field v of None \<Rightarrow> Inl (KeyError name) | Some x \<Rightarrow> Inr x))"

definition DiskDict_init :: "mongo_document \<Rightarrow> datatype_schema \<Rightarrow> (unit, disk_dict) py" where
  "DiskDict_init doc schema =
     py_bind (ModalDict_init ''disk'' doc schema) (\<lambda>_.
     py_bind (\<lambda>s.
        case dict_comp (schema_entry schema load_func ''load_func'') (keys s) of
          Inl e \<Rightarrow> (Inl e, s)
        | Inr lf \<Rightarrow>
        (case dict_comp (schema_entry schema save_func ''save_func'') (keys s) of
          Inl e \<Rightarrow> (Inl e, s\<lparr>load_funcs := lf\<rparr>)
        | Inr sf \<Rightarrow>
        (case dict_comp (\<lambda>k. case schema_entry schema filename ''filename'' k of
                               Inl e \<Rightarrow> Inl e
                             | Inr fn \<Rightarrow> Inr (os_path_join (root doc) fn)) (keys s) of
          Inl e \<Rightarrow> (Inl e, s\<lparr>load_funcs := lf, save_funcs := sf\<rparr>)
        | Inr ps \<Rightarrow>
        (case dict_comp (\<lambda>k. Inr PyNone) (keys s) of
          Inl e \<Rightarrow> (Inl e, s\<lparr>load_funcs := lf, save_funcs := sf, paths := ps\<rparr>)
        | Inr d \<Rightarrow>
            (Inr (), s\<lparr>load_funcs := lf, save_funcs := sf, paths := ps, data := d\<rparr>)))))
     (\<lambda>_. update_item_metadata DiskDict_item_present))"

definition DiskDict_new ::
  "heap \<Rightarrow> filesys \<Rightarrow> mongo_document \<Rightarrow> datatype_schema \<Rightarrow> (error + unit) \<times> disk_dict" where
  "DiskDict_new h f doc schema =
     DiskDict_init doc schema
       \<lparr> heap = h, mongo_doc = doc, keys = [], metadata = Map.empty, data = Map.empty,
         fs = f, load_funcs = Map.empty, save_funcs = Map.empty, paths = Map.empty \<rparr>"

section \<open>Well-formed states, sequences of calls, and a sample document\<close>

subsection \<open>The registry\<close>

text \<open>
  What \<^verbatim>\<open>ChildContainer.__init__\<close> establishes: the prefix is the parent id followed
  by the joiner, and every declared child type has an address table.
\<close>

definition constructed :: "child_container \<Rightarrow> bool" where
  "constructed c =
     (parent_prefix c = parent_id c @ id_joiner \<and>
      (\<forall>t \<in> set (childtypes c). childtype_dicts c (cls_name t) \<noteq> None))"

text \<open>
  A caller's sequence of \<^verbatim>\<open>get\<close> and \<^verbatim>\<open>add\<close> calls on one registry; a call that
  raises leaves the registry as the exception left it, and the next call goes on from there.
\<close>

datatype registry_op = Get "pyval list" | Add "pyval list"

fun registry_call :: "registry_op \<Rightarrow> child_container \<Rightarrow> child_container" where
  "registry_call (Get args) c = snd (ChildContainer_get args c)"
| "registry_call (Add args) c = snd (ChildContainer_add args c)"

fun registry_calls :: "registry_op list \<Rightarrow> child_container \<Rightarrow> child_container" where
  "registry_calls [] c = c"
| "registry_calls (x # xs) c = registry_calls xs (registry_call x c)"

text \<open>
  The raw ids that the \<^verbatim>\<open>add\<close> calls of a sequence put into the table at address
  \<open>a\<close>.
\<close>

definition added_to :: "child_container \<Rightarrow> addr \<Rightarrow> registry_op list \<Rightarrow> string set" where
  "added_to c a calls =
     {raw. \<exists>args t. Add args \<in> set calls \<and> sanitize c args = Inr (t, raw) \<and>
                     get_childtype_dict c t = Inr a}"

subsection \<open>A sample document\<close>

definition frame_cls :: pyclass where
  "frame_cls = PyClass 0 ''Frame'' ''Frame.Frame''"

definition annotation_cls :: pyclass where
  "annotation_cls = PyClass 1 ''Annotation'' ''Annotation.Annotation''"

definition video_doc :: mongo_document where
  "video_doc = \<lparr> root = ''/data/video_1'',
                 items = [''caption'' \<mapsto> 1, ''thumbnail'' \<mapsto> 2],
                 children = [''Frame'' \<mapsto> 3, ''Annotation'' \<mapsto> 4] \<rparr>"

definition video_heap :: heap where
  "video_heap = (\<lambda>_. Map.empty)
     (1 := [''present'' \<mapsto> PyBool False, ''data'' \<mapsto> PyStr ''a cat''],
      2 := [''present'' \<mapsto> PyBool False],
      3 := [''7'' \<mapsto> PyStr ''video_1/7''])"

text \<open>
  The registries \<^verbatim>\<open>ChildContainer('video_1', {'contains': [Frame]}, video_doc)\<close> and
  \<^verbatim>\<open>ChildContainer('video_1', {'contains': [Frame, Annotation]}, video_doc)\<close>.
\<close>

definition video_container :: child_container where
  "video_container = \<lparr> heap = video_heap, parent_id = ''video_1'', parent_prefix = ''video_1/'',
      childtypes = [frame_cls], childtype_dicts = children video_doc \<rparr>"

definition video_container2 :: child_container where
  "video_container2 = \<lparr> heap = video_heap, parent_id = ''video_1'', parent_prefix = ''video_1/'',
      childtypes = [frame_cls, annotation_cls], childtype_dicts = children video_doc \<rparr>"

subsection \<open>The item stores\<close>

text \<open>
  What the constructors establish and every call that returns leaves in place: each key of
  the store has its metadata reference and an entry in \<^verbatim>\<open>self.data\<close>.
\<close>

definition store_ok :: "'a modal_dict_scheme \<Rightarrow> bool" where
  "store_ok s = (\<forall>k \<in> set (keys s). metadata s k \<noteq> None \<and> data s k \<noteq> None)"

text \<open>
  Two heaps that differ at most in the entry \<^verbatim>\<open>'present'\<close> of the dictionaries at the
  addresses in \<open>A\<close>; two states that differ at most so.
\<close>

definition present_apart :: "addr set \<Rightarrow> heap \<Rightarrow> heap \<Rightarrow> bool" where
  "present_apart A h h' =
     (\<forall>a. (a \<notin> A \<longrightarrow> h' a = h a) \<and> (\<forall>j. j \<noteq> ''present'' \<longrightarrow> h' a j = h a j))"

definition same_but_present :: "addr set \<Rightarrow> 'a modal_dict_scheme \<Rightarrow> 'a modal_dict_scheme \<Rightarrow> bool" where
  "same_but_present A s1 s2 = (s2 = s1\<lparr>heap := heap s2\<rparr> \<and> present_apart A (heap s1) (heap s2))"

text \<open>
  A caller's sequence of calls on one store, with the outcome of each call; a call that
  raises leaves the store as the exception left it, and the next call goes on from there.
\<close>

datatype store_op =
    Getitem string
  | Setitem string pyval
  | Delitem string
  | ItemPresent string
  | PresentItems
  | AbsentItems

datatype op_result = RNone | RVal pyval | RBool bool | RKeys "string set"

fun MemoryDict_call :: "store_op \<Rightarrow> (op_result, modal_dict) py" where
  "MemoryDict_call (Getitem k) = py_bind (MemoryDict_getitem k) (\<lambda>v. py_return (RVal v))"
| "MemoryDict_call (Setitem k v) = py_bind (MemoryDict_setitem k v) (\<lambda>_. py_return RNone)"
| "MemoryDict_call (Delitem k) = py_bind (MemoryDict_delitem k) (\<lambda>_. py_return RNone)"
| "MemoryDict_call (ItemPresent k) = py_bind (MemoryDict_item_present k) (\<lambda>b. py_return (RBool b))"
| "MemoryDict_call PresentItems = py_bind MemoryDict_present_items (\<lambda>r. py_return (RKeys r))"
| "MemoryDict_call AbsentItems = py_bind MemoryDict_absent_items (\<lambda>r. py_return (RKeys r))"

fun MemoryDict_calls :: "store_op list \<Rightarrow> modal_dict \<Rightarrow> (error + op_result) list \<times> modal_dict" where
  "MemoryDict_calls [] s = ([], s)"
| "MemoryDict_calls (x # xs) s =
     (case MemoryDict_call x s of (r, s') \<Rightarrow>
        (case MemoryDict_calls xs s' of (rs, s'') \<Rightarrow> (r # rs, s'')))"

text \<open>
  The item schema of the sample document: a memory item and a disk item whose load and
  save functions read and write the bytes of the file. \<open>video_memory\<close> is
  \<^verbatim>\<open>MemoryDict(video_doc, video_schema)\<close>.
\<close>

definition read_bytes :: load_fn where
  "read_bytes f p = (case f p of Some (File c) \<Rightarrow> Inr (PyStr c) | _ \<Rightarrow> Inl (Raised ''IOError''))"

definition write_bytes :: "pyval \<Rightarrow> string \<Rightarrow> filesys \<Rightarrow> (error + unit) \<times> filesys" where
  "write_bytes v p f =
     (case v of PyStr c \<Rightarrow> (Inr (), f(p \<mapsto> File c)) | _ \<Rightarrow> (Inl (Raised ''TypeError''), f))"

definition video_schema :: datatype_schema where
  "video_schema =
     [(''caption'', \<lparr> mode = ''memory'', filename = None, load_func = None, save_func = None \<rparr>),
      (''thumbnail'', \<lparr> mode = ''disk'', filename = Some ''thumb.jpg'',
          load_func = Some read_bytes, save_func = Some (SaveFn write_bytes) \<rparr>)]"

definition video_memory :: modal_dict where
  "video_memory = snd (MemoryDict_new video_heap video_doc video_schema)"

text \<open>
  A disk store as its constructor leaves it: each key also has its load function, its
  save function and its path.
\<close>

definition disk_ok :: "disk_dict \<Rightarrow> bool" where
  "disk_ok s =
     (store_ok s \<and>
      (\<forall>k \<in> set (keys s). load_funcs s k \<noteq> None \<and> save_funcs s k \<noteq> None \<and> paths s k \<noteq> None))"

fun DiskDict_call :: "store_op \<Rightarrow> (op_result, disk_dict) py" where
  "DiskDict_call (Getitem k) = py_bind (DiskDict_getitem k) (\<lambda>v. py_return (RVal v))"
| "DiskDict_call (Setitem k v) = py_bind (DiskDict_setitem k v) (\<lambda>_. py_return RNone)"
| "DiskDict_call (Delitem k) = py_bind (DiskDict_delitem k) (\<lambda>_. py_return RNone)"
| "DiskDict_call (ItemPresent k) = py_bind (DiskDict_item_present k) (\<lambda>b. py_return (RBool b))"
| "DiskDict_call PresentItems = py_bind DiskDict_present_items (\<lambda>r. py_return (RKeys r))"
| "DiskDict_call AbsentItems = py_bind DiskDict_absent_items (\<lambda>r. py_return (RKeys r))"

fun DiskDict_calls :: "store_op list \<Rightarrow> disk_dict \<Rightarrow> (error + op_result) list \<times> disk_dict" where
  "DiskDict_calls [] s = ([], s)"
| "DiskDict_calls (x # xs) s =
     (case DiskDict_call x s of (r, s') \<Rightarrow>
        (case DiskDict_calls xs s' of (rs, s'') \<Rightarrow> (r # rs, s'')))"

text \<open>
  \<open>video_disk\<close> is \<^verbatim>\<open>DiskDict(video_doc, video_schema)\<close> on a filesystem that holds
  the thumbnail; \<open>video_disk_empty\<close> is the same store on a filesystem that does not.
\<close>

definition video_fs :: filesys where
  "video_fs = [''/data/video_1/thumb.jpg'' \<mapsto> File ''JPEG'', ''/data/video_1'' \<mapsto> Dir]"

definition video_disk :: disk_dict where
  "video_disk = snd (DiskDict_new video_heap video_fs video_doc video_schema)"

definition video_disk_empty :: disk_dict where
  "video_disk_empty = snd (DiskDict_new video_heap [''/data/video_1'' \<mapsto> Dir] video_doc video_schema)"

subsection \<open>The document as the stores and the registry leave it\<close>

text \<open>
  The contents of the document in a heap: its root, and behind every item key and every
  child type name the dictionary the reference there points to.
\<close>

definition doc_contents ::
  "heap \<Rightarrow> mongo_document \<Rightarrow> string \<times> (string \<rightharpoonup> pydict) \<times> (string \<rightharpoonup> pydict)" where
  "doc_contents h d =
     (root d, (\<lambda>k. map_option h (items d k)), (\<lambda>n. map_option h (children d n)))"

text \<open>
  A state \<open>t\<close> of a store that refers to the same metadata dictionaries as \<open>s\<close> and
  whose heap differs from that of \<open>s\<close> at most in their \<^verbatim>\<open>'present'\<close> entries.
\<close>

definition store_frame :: "'a modal_dict_scheme \<Rightarrow> 'a modal_dict_scheme \<Rightarrow> bool" where
  "store_frame s t =
     (metadata t = metadata s \<and> present_apart (ran (metadata s)) (heap s) (heap t))"

text \<open>
  A heap \<open>h'\<close> that differs from the heap of the registry \<open>c\<close> at most in entries
  \<^verbatim>\<open>raw_id: to_full_id(raw_id)\<close> that the \<^verbatim>\<open>add\<close> calls of a sequence put into a table.
\<close>

definition registry_frame :: "child_container \<Rightarrow> registry_op list \<Rightarrow> heap \<Rightarrow> bool" where
  "registry_frame c calls h' =
     (\<forall>a j. h' a j \<noteq> heap c a j \<longrightarrow>
        j \<in> added_to c a calls \<and> h' a j = Some (PyStr (to_full_id c (PyStr j))))"

section \<open>Properties of the registry\<close>

lemmas video_defs = video_container_def video_container2_def video_doc_def video_heap_def
  frame_cls_def annotation_cls_def

lemmas id_defs = to_raw_id_def to_full_id_def is_raw_id_def is_full_id_def startswith_def

subsection \<open>The constructor\<close>

lemma init_constructed: "ChildContainer_init pid schema doc h = Inr c \<Longrightarrow> constructed c"
  by (auto simp: ChildContainer_init_def constructed_def split: if_splits)

lemma video_container_init:
  "ChildContainer_init ''video_1'' \<lparr>contains = [frame_cls]\<rparr> video_doc video_heap
     = Inr video_container"
  by (simp add: ChildContainer_init_def video_defs id_joiner_def)

lemma video_container2_init:
  "ChildContainer_init ''video_1'' \<lparr>contains = [frame_cls, annotation_cls]\<rparr> video_doc video_heap
     = Inr video_container2"
  by (simp add: ChildContainer_init_def video_defs id_joiner_def)

lemma video_constructed: "constructed video_container"
  using video_container_init by (rule init_constructed)

lemma video2_constructed: "constructed video_container2"
  using video_container2_init by (rule init_constructed)

subsection \<open>Identifier normalization\<close>

lemma to_full_id_idem: "to_full_id c (PyStr (to_full_id c (PyStr s))) = to_full_id c (PyStr s)"
  by (simp add: to_full_id_def is_raw_id_def is_full_id_def startswith_def)

lemma to_raw_id_idem_iff:
  assumes "parent_prefix c = parent_id c @ id_joiner"
  shows "(to_raw_id c (PyStr (to_raw_id c (PyStr s))) = to_raw_id c (PyStr s))
         = (\<not> is_full_id c (to_raw_id c (PyStr s)))"
proof (cases "is_full_id c (to_raw_id c (PyStr s))")
  case True
  let ?r = "to_raw_id c (PyStr s)"
  have "parent_prefix c \<noteq> []"
    using assms by (simp add: id_joiner_def)
  moreover from True have "length (parent_prefix c) \<le> length ?r"
    by (metis is_full_id_def startswith_def length_take min.cobounded2 min.commute)
  ultimately have "length (drop (length (parent_prefix c)) ?r) < length ?r"
    by (cases "parent_prefix c") auto
  then have "drop (length (parent_prefix c)) ?r \<noteq> ?r"
    by (metis less_irrefl)
  with True show ?thesis
    by (simp add: to_raw_id_def[of c "PyStr (to_raw_id c (PyStr s))"])
next
  case False
  then show ?thesis
    by (simp add: to_raw_id_def[of c "PyStr (to_raw_id c (PyStr s))"])
qed

text \<open>
  Claim C2, as amended. Both normalizers return a string for every string (they are
  functions, with no exception among their outcomes). \<^verbatim>\<open>to_full_id\<close> is idempotent.
  \<^verbatim>\<open>to_raw_id\<close> strips the prefix \<^verbatim>\<open>parent_id + '/'\<close> once, so applying it twice
  gives the same as applying it once exactly when its first result does not start with
  that prefix again.
\<close>

theorem normalizers_idempotence:
  assumes "parent_prefix c = parent_id c @ id_joiner"
  shows "to_full_id c (PyStr (to_full_id c (PyStr s))) = to_full_id c (PyStr s)
     \<and> ((to_raw_id c (PyStr (to_raw_id c (PyStr s))) = to_raw_id c (PyStr s))
          = (\<not> is_full_id c (to_raw_id c (PyStr s))))"
  using to_full_id_idem to_raw_id_idem_iff[OF assms] by blast

theorem normalizers_idempotence_witness:
  "parent_prefix video_container = parent_id video_container @ id_joiner
   \<and> to_full_id video_container (PyStr (to_full_id video_container (PyStr ''1''))) = ''video_1/1''
   \<and> to_raw_id video_container (PyStr (to_raw_id video_container (PyStr ''video_1/1''))) = ''1''
   \<and> \<not> is_full_id video_container (to_raw_id video_container (PyStr ''video_1/1''))"
proof -
  have p: "parent_prefix video_container = parent_id video_container @ id_joiner"
    by (simp add: video_defs id_joiner_def)
  have "to_full_id video_container (PyStr ''1'') = ''video_1/1''"
    and "to_raw_id video_container (PyStr ''video_1/1'') = ''1''"
    and "\<not> is_full_id video_container ''1''"
    by (simp_all add: video_defs id_defs)
  with normalizers_idempotence[OF p, of "''1''"]
    normalizers_idempotence[OF p, of "''video_1/1''"] p
  show ?thesis by simp
qed

text \<open>
  Claim C2 as stated fails for \<^verbatim>\<open>to_raw_id\<close>: under parent \<^verbatim>\<open>video_1\<close> the id
  \<^verbatim>\<open>video_1/video_1/1\<close> goes to \<^verbatim>\<open>video_1/1\<close>, and that goes to \<^verbatim>\<open>1\<close>.
\<close>

theorem to_raw_id_not_idempotent:
  "to_raw_id video_container (PyStr ''video_1/video_1/1'') = ''video_1/1''
   \<and> to_raw_id video_container (PyStr (to_raw_id video_container (PyStr ''video_1/video_1/1'')))
       = ''1''
   \<and> to_raw_id video_container (PyStr (to_raw_id video_container (PyStr ''video_1/video_1/1'')))
       \<noteq> to_raw_id video_container (PyStr ''video_1/video_1/1'')"
  by (simp add: video_defs id_defs)

subsection \<open>Resolution of a child reference\<close>

lemma sanitize_member: "sanitize c args = Inr (t, raw) \<Longrightarrow> t \<in> set (childtypes c)"
  by (auto simp: sanitize_def get_only_childtype_def is_valid_childtype_def
      split: if_splits pyval.splits)

lemma sanitize_raw: "sanitize c args = Inr (t, raw) \<Longrightarrow> raw = to_raw_id c (last args)"
proof -
  assume a: "sanitize c args = Inr (t, raw)"
  then have "length args = 1 \<or> length args = 2"
    by (auto simp: sanitize_def split: if_splits)
  then show ?thesis
  proof
    assume "length args = 1"
    then obtain x where "args = [x]"
      by (cases args) auto
    with a show ?thesis
      by (auto simp: sanitize_def get_only_childtype_def split: if_splits)
  next
    assume "length args = 2"
    then obtain y x where "args = [y, x]"
      by (cases args; simp) (metis length_0_conv length_Suc_conv)
    with a show ?thesis
      by (auto simp: sanitize_def is_valid_childtype_def split: if_splits pyval.splits)
  qed
qed

lemma sanitize_one:
  "childtypes c \<noteq> [] \<Longrightarrow> sanitize c [x] =
     (if 1 < length (childtypes c)
      then Inl (TypeError ''Multiple childtypes exist; need to specify one'')
      else Inr (hd (childtypes c), to_raw_id c x))"
  by (cases "childtypes c") (auto simp: sanitize_def get_only_childtype_def)

lemma sanitize_two:
  "childtypes c \<noteq> [] \<Longrightarrow> sanitize c [PyCls t, x] =
     (if t \<notin> set (childtypes c)
      then Inl (TypeError (''Not a valid childtype: '' @ cls_name t))
      else Inr (t, to_raw_id c x))"
  by (simp add: sanitize_def is_valid_childtype_def)

text \<open>
  The cases of \<^verbatim>\<open>sanitize\<close> when the first of two arguments is a class object. With no
  declared child type it raises the configuration error, whatever the arguments. Otherwise:
  one argument raises the ambiguity error when more than one child type is declared and
  else resolves to the only declared type; two arguments, the first a class, raise the
  invalid-type error when that class is not declared and else resolve to it; any other
  number of arguments raises the invalid-arguments error. Every successful resolution
  returns a declared type and the last argument normalized by \<^verbatim>\<open>to_raw_id\<close>.
\<close>

lemma sanitize_cases:
  "(childtypes c = [] \<longrightarrow>
      sanitize c args = Inl (Exception ''No childtypes defined in Schema; operation illegal''))
   \<and> (childtypes c \<noteq> [] \<longrightarrow>
      (\<forall>x. sanitize c [x] =
         (if 1 < length (childtypes c)
          then Inl (TypeError ''Multiple childtypes exist; need to specify one'')
          else Inr (hd (childtypes c), to_raw_id c x)))
    \<and> (\<forall>t x. sanitize c [PyCls t, x] =
         (if t \<notin> set (childtypes c)
          then Inl (TypeError (''Not a valid childtype: '' @ cls_name t))
          else Inr (t, to_raw_id c x)))
    \<and> (length args \<noteq> 1 \<and> length args \<noteq> 2 \<longrightarrow>
         sanitize c args = Inl (Exception ''Invalid number of arguments'')))
   \<and> (\<forall>t raw. sanitize c args = Inr (t, raw) \<longrightarrow>
         t \<in> set (childtypes c) \<and> raw = to_raw_id c (last args))"
proof (intro conjI impI allI)
  assume "childtypes c = []"
  then show "sanitize c args = Inl (Exception ''No childtypes defined in Schema; operation illegal'')"
    by (simp add: sanitize_def)
next
  fix x
  assume "childtypes c \<noteq> []"
  then show "sanitize c [x] =
         (if 1 < length (childtypes c)
          then Inl (TypeError ''Multiple childtypes exist; need to specify one'')
          else Inr (hd (childtypes c), to_raw_id c x))"
    by (rule sanitize_one)
next
  fix t x
  assume "childtypes c \<noteq> []"
  then show "sanitize c [PyCls t, x] =
         (if t \<notin> set (childtypes c)
          then Inl (TypeError (''Not a valid childtype: '' @ cls_name t))
          else Inr (t, to_raw_id c x))"
    by (rule sanitize_two)
next
  assume "childtypes c \<noteq> []" and "length args \<noteq> 1 \<and> length args \<noteq> 2"
  then show "sanitize c args = Inl (Exception ''Invalid number of arguments'')"
    by (simp add: sanitize_def)
next
  fix t raw
  assume "sanitize c args = Inr (t, raw)"
  then show "t \<in> set (childtypes c)"
    by (rule sanitize_member)
next
  fix t raw
  assume "sanitize c args = Inr (t, raw)"
  then show "raw = to_raw_id c (last args)"
    by (rule sanitize_raw)
qed

lemma sanitize_cases_examples:
  "sanitize (video_container\<lparr>childtypes := []\<rparr>) [PyStr ''1'']
     = Inl (Exception ''No childtypes defined in Schema; operation illegal'')
   \<and> sanitize video_container2 [PyStr ''1'']
     = Inl (TypeError ''Multiple childtypes exist; need to specify one'')
   \<and> sanitize video_container [PyStr ''video_1/1''] = Inr (frame_cls, ''1'')
   \<and> sanitize video_container [PyCls annotation_cls, PyStr ''1'']
     = Inl (TypeError ''Not a valid childtype: Annotation'')
   \<and> sanitize video_container2 [PyCls annotation_cls, PyStr ''1''] = Inr (annotation_cls, ''1'')
   \<and> sanitize video_container [] = Inl (Exception ''Invalid number of arguments'')"
proof -
  have a: "childtypes (video_container\<lparr>childtypes := []\<rparr>) = []"
    by simp
  have b: "childtypes video_container2 \<noteq> []" "childtypes video_container \<noteq> []"
    by (simp_all add: video_defs)
  have c: "length ([]::pyval list) \<noteq> 1 \<and> length ([]::pyval list) \<noteq> 2"
    by simp
  note t1 = sanitize_cases[of "video_container\<lparr>childtypes := []\<rparr>" "[PyStr ''1'']"]
  note t2 = sanitize_cases[of video_container2 "[]"]
  note t3 = sanitize_cases[of video_container "[]"]
  from t1 a have 1: "sanitize (video_container\<lparr>childtypes := []\<rparr>) [PyStr ''1'']
     = Inl (Exception ''No childtypes defined in Schema; operation illegal'')"
    by blast
  from t2 b(1) have 2: "sanitize video_container2 [PyStr ''1''] =
         (if 1 < length (childtypes video_container2)
          then Inl (TypeError ''Multiple childtypes exist; need to specify one'')
          else Inr (hd (childtypes video_container2), to_raw_id video_container2 (PyStr ''1'')))"
    by blast
  from t3 b(2) have 3: "sanitize video_container [PyStr ''video_1/1''] =
         (if 1 < length (childtypes video_container)
          then Inl (TypeError ''Multiple childtypes exist; need to specify one'')
          else Inr (hd (childtypes video_container),
                    to_raw_id video_container (PyStr ''video_1/1'')))"
    by blast
  from t3 b(2) have 4: "sanitize video_container [PyCls annotation_cls, PyStr ''1''] =
         (if annotation_cls \<notin> set (childtypes video_container)
          then Inl (TypeError (''Not a valid childtype: '' @ cls_name annotation_cls))
          else Inr (annotation_cls, to_raw_id video_container (PyStr ''1'')))"
    by blast
  from t2 b(1) have 5: "sanitize video_container2 [PyCls annotation_cls, PyStr ''1''] =
         (if annotation_cls \<notin> set (childtypes video_container2)
          then Inl (TypeError (''Not a valid childtype: '' @ cls_name annotation_cls))
          else Inr (annotation_cls, to_raw_id video_container2 (PyStr ''1'')))"
    by blast
  from t3 b(2) c have 6:
    "sanitize video_container [] = Inl (Exception ''Invalid number of arguments'')"
    by blast
  show ?thesis
    unfolding 1 2 3 4 5 6 by (simp add: video_defs id_defs)
qed

text \<open>
  Claim C5 fails in the code for a first argument of two that is not a declared child type
  because it is no class at all. On the registry of the sample document, which declares
  \<^verbatim>\<open>Frame\<close>, the call \<^verbatim>\<open>sanitize('Frame', '1')\<close> finds the string \<^verbatim>\<open>'Frame'\<close> not to
  be a valid child type and sets out to raise the invalid-type \<^verbatim>\<open>TypeError\<close>; building
  its message reads \<^verbatim>\<open>args[0].__name__\<close>, which a string does not have, so the call
  raises \<^verbatim>\<open>AttributeError\<close> and no \<^verbatim>\<open>TypeError\<close> at all.
\<close>

theorem sanitize_non_class_childtype:
  "childtypes video_container = [frame_cls]
   \<and> \<not> is_valid_childtype video_container (PyStr ''Frame'')
   \<and> sanitize video_container [PyStr ''Frame'', PyStr ''1''] = Inl (AttributeError ''__name__'')
   \<and> (\<forall>msg. sanitize video_container [PyStr ''Frame'', PyStr ''1''] \<noteq> Inl (TypeError msg))"
  by (simp add: sanitize_def is_valid_childtype_def video_defs)

subsection \<open>What a call changes\<close>

lemma to_raw_id_heap [simp]: "to_raw_id (c\<lparr>heap := h\<rparr>) x = to_raw_id c x"
  by (simp add: to_raw_id_def is_full_id_def Let_def)

lemma to_full_id_heap [simp]: "to_full_id (c\<lparr>heap := h\<rparr>) x = to_full_id c x"
  by (simp add: to_full_id_def is_raw_id_def is_full_id_def Let_def)

lemma is_valid_childtype_heap [simp]:
  "is_valid_childtype (c\<lparr>heap := h\<rparr>) x = is_valid_childtype c x"
  by (cases x) (simp_all add: is_valid_childtype_def)

lemma get_only_childtype_heap [simp]:
  "get_only_childtype (c\<lparr>heap := h\<rparr>) = get_only_childtype c"
  by (simp add: get_only_childtype_def)

lemma sanitize_heap [simp]: "sanitize (c\<lparr>heap := h\<rparr>) args = sanitize c args"
  by (simp add: sanitize_def cong: pyval.case_cong sum.case_cong)

lemma get_childtype_dict_heap [simp]:
  "get_childtype_dict (c\<lparr>heap := h\<rparr>) t = get_childtype_dict c t"
  by (simp add: get_childtype_dict_def)

lemma added_to_heap [simp]: "added_to (c\<lparr>heap := h\<rparr>) a calls = added_to c a calls"
  by (simp add: added_to_def)

lemma get_state [simp]: "snd (ChildContainer_get args c) = c"
  by (simp add: ChildContainer_get_def split: sum.splits prod.splits option.splits)

lemma add_state:
  "snd (ChildContainer_add args c) =
     (case sanitize c args of
        Inl e \<Rightarrow> c
      | Inr (t, raw) \<Rightarrow>
          (case get_childtype_dict c t of
             Inl e \<Rightarrow> c
           | Inr a \<Rightarrow>
               c\<lparr>heap := (heap c)(a := (heap c a)(raw \<mapsto> PyStr (to_full_id c (PyStr raw))))\<rparr>))"
  by (simp add: ChildContainer_add_def Let_def split: sum.splits prod.splits)

lemma registry_call_static: "\<exists>h. registry_call x c = c\<lparr>heap := h\<rparr>"
proof (cases x)
  case (Get args)
  have "c = c\<lparr>heap := heap c\<rparr>"
    by simp
  with Get show ?thesis
    by (metis registry_call.simps(1) get_state)
next
  case (Add args)
  have "c = c\<lparr>heap := heap c\<rparr>"
    by simp
  then show ?thesis
    unfolding Add registry_call.simps add_state
    by (auto split: sum.splits prod.splits intro: exI[of _ "heap c"])
qed

lemma registry_calls_static: "\<exists>h. registry_calls xs c = c\<lparr>heap := h\<rparr>"
proof (induction xs arbitrary: c)
  case Nil
  have "c = c\<lparr>heap := heap c\<rparr>"
    by simp
  then show ?case
    by (metis registry_calls.simps(1))
next
  case (Cons x xs)
  obtain h where h: "registry_call x c = c\<lparr>heap := h\<rparr>"
    using registry_call_static by blast
  obtain h' where "registry_calls xs (c\<lparr>heap := h\<rparr>) = c\<lparr>heap := h\<rparr>\<lparr>heap := h'\<rparr>"
    using Cons.IH by blast
  then show ?case
    by (auto simp: h intro: exI[of _ h'])
qed

lemma dom_registry_call:
  "dom (heap (registry_call x c) a) = dom (heap c a) \<union> added_to c a [x]"
proof (cases x)
  case (Get args)
  then show ?thesis
    by (simp add: added_to_def)
next
  case (Add args)
  show ?thesis
    unfolding Add registry_call.simps add_state
    by (auto simp: added_to_def split: sum.splits prod.splits)
qed

lemma added_to_Cons: "added_to c a (x # xs) = added_to c a [x] \<union> added_to c a xs"
  by (auto simp: added_to_def)

lemma dom_registry_calls:
  "dom (heap (registry_calls xs c) a) = dom (heap c a) \<union> added_to c a xs"
proof (induction xs arbitrary: c)
  case Nil
  then show ?case
    by (simp add: added_to_def)
next
  case (Cons x xs)
  obtain h where h: "registry_call x c = c\<lparr>heap := h\<rparr>"
    using registry_call_static by blast
  have "dom (heap (registry_calls (x # xs) c) a)
      = dom (heap (registry_call x c) a) \<union> added_to (registry_call x c) a xs"
    using Cons.IH by simp
  also have "\<dots> = (dom (heap c a) \<union> added_to c a [x]) \<union> added_to c a xs"
    by (simp add: dom_registry_call) (simp add: h)
  finally show ?case
    by (auto simp: added_to_Cons[of c a x xs])
qed

subsection \<open>Round trip and lookup\<close>

text \<open>
  Claim C8, as amended. On a constructed registry, for a declared child type \<open>t\<close> and
  any id \<open>x\<close>, \<^verbatim>\<open>add(t, x)\<close> succeeds and \<^verbatim>\<open>get(t, x)\<close> then returns \<open>t\<close> with
  \<^verbatim>\<open>to_full_id(to_raw_id(x))\<close>; that is \<^verbatim>\<open>parent_id + '/' + to_raw_id(x)\<close> whenever
  \<^verbatim>\<open>to_raw_id(x)\<close> does not itself start with \<^verbatim>\<open>parent_id + '/'\<close>. When \<open>t\<close> is the
  only declared child type the one-argument calls return the same pair.
\<close>

theorem registry_round_trip:
  assumes "constructed c" and "t \<in> set (childtypes c)"
  shows "fst (ChildContainer_add [PyCls t, x] c) = Inr ()
     \<and> fst (ChildContainer_get [PyCls t, x] (snd (ChildContainer_add [PyCls t, x] c)))
         = Inr (t, PyStr (to_full_id c (PyStr (to_raw_id c x))))
     \<and> (\<not> is_full_id c (to_raw_id c x) \<longrightarrow>
          to_full_id c (PyStr (to_raw_id c x)) = parent_id c @ ''/'' @ to_raw_id c x)
     \<and> (childtypes c = [t] \<longrightarrow>
          fst (ChildContainer_add [x] c) = Inr ()
        \<and> fst (ChildContainer_get [x] (snd (ChildContainer_add [x] c)))
            = Inr (t, PyStr (to_full_id c (PyStr (to_raw_id c x)))))"
proof -
  from assms obtain a where a: "childtype_dicts c (cls_name t) = Some a"
    by (auto simp: constructed_def)
  have s2: "sanitize c [PyCls t, x] = Inr (t, to_raw_id c x)"
    using assms(2) by (auto simp: sanitize_def is_valid_childtype_def)
  have s1: "childtypes c = [t] \<Longrightarrow> sanitize c [x] = Inr (t, to_raw_id c x)"
    by (simp add: sanitize_def get_only_childtype_def)
  have p: "parent_prefix c = parent_id c @ ''/''"
    using assms(1) by (simp add: constructed_def id_joiner_def)
  have rt: "\<And>args. sanitize c args = Inr (t, to_raw_id c x) \<Longrightarrow>
      fst (ChildContainer_add args c) = Inr ()
      \<and> fst (ChildContainer_get args (snd (ChildContainer_add args c)))
         = Inr (t, PyStr (to_full_id c (PyStr (to_raw_id c x))))"
    using a
    by (simp add: ChildContainer_add_def ChildContainer_get_def get_childtype_dict_def Let_def)
  show ?thesis
    using rt[OF s2] rt[OF s1] p by (simp add: to_full_id_def is_raw_id_def)
qed

theorem registry_round_trip_witness:
  "constructed video_container \<and> frame_cls \<in> set (childtypes video_container)
   \<and> \<not> is_full_id video_container (to_raw_id video_container (PyStr ''1''))
   \<and> childtypes video_container = [frame_cls]
   \<and> fst (ChildContainer_get [PyCls frame_cls, PyStr ''1'']
         (snd (ChildContainer_add [PyCls frame_cls, PyStr ''1''] video_container)))
       = Inr (frame_cls, PyStr ''video_1/1'')
   \<and> fst (ChildContainer_get [PyStr ''1''] (snd (ChildContainer_add [PyStr ''1''] video_container)))
       = Inr (frame_cls, PyStr ''video_1/1'')"
proof -
  have m: "frame_cls \<in> set (childtypes video_container)"
    and o: "childtypes video_container = [frame_cls]"
    by (simp_all add: video_defs)
  have r: "\<not> is_full_id video_container (to_raw_id video_container (PyStr ''1''))"
    and f: "to_full_id video_container (PyStr (to_raw_id video_container (PyStr ''1'')))
              = ''video_1/1''"
    by (simp_all add: video_defs id_defs)
  show ?thesis
    using registry_round_trip[OF video_constructed m, of "PyStr ''1''"] m o r
    by (simp add: video_constructed f)
qed

text \<open>
  Claim C8 as stated fails for an id that carries the prefix twice: after
  \<^verbatim>\<open>add(Frame, 'video_1/video_1/1')\<close> the call \<^verbatim>\<open>get(Frame, 'video_1/video_1/1')\<close>
  returns \<^verbatim>\<open>video_1/1\<close>, while \<^verbatim>\<open>parent_id + '/' + to_raw_id(id)\<close> is
  \<^verbatim>\<open>video_1/video_1/1\<close>.
\<close>

theorem round_trip_doubled_prefix:
  "fst (ChildContainer_get [PyCls frame_cls, PyStr ''video_1/video_1/1'']
         (snd (ChildContainer_add [PyCls frame_cls, PyStr ''video_1/video_1/1''] video_container)))
     = Inr (frame_cls, PyStr ''video_1/1'')
   \<and> fst (ChildContainer_get [PyCls frame_cls, PyStr ''video_1/video_1/1'']
         (snd (ChildContainer_add [PyCls frame_cls, PyStr ''video_1/video_1/1''] video_container)))
     \<noteq> Inr (frame_cls, PyStr (parent_id video_container @ ''/'' @
                to_raw_id video_container (PyStr ''video_1/video_1/1'')))"
  by (simp add: ChildContainer_get_def ChildContainer_add_def sanitize_def is_valid_childtype_def
      get_childtype_dict_def video_defs id_defs)

text \<open>
  Claim C9. Let a reference resolve on a constructed registry to type \<open>t\<close> and raw id
  \<open>raw\<close>, and let \<open>a\<close> be the table of \<open>t\<close>. After any sequence of calls,
  \<^verbatim>\<open>get\<close> raises the lookup error \<^verbatim>\<open>KeyError(raw)\<close> exactly when \<open>raw\<close> was neither in
  the table at construction nor put there by an \<^verbatim>\<open>add\<close> of the sequence; for every raw
  id seeded or added it returns \<open>t\<close> with an entry of the table.
\<close>

theorem get_lookup_error_iff:
  assumes "constructed c" and "sanitize c args = Inr (t, raw)"
    and "get_childtype_dict c t = Inr a"
  shows "(fst (ChildContainer_get args (registry_calls calls c)) = Inl (KeyError raw))
           = (raw \<notin> dom (heap c a) \<and> raw \<notin> added_to c a calls)
         \<and> (raw \<in> dom (heap c a) \<union> added_to c a calls \<longrightarrow>
              (\<exists>full. fst (ChildContainer_get args (registry_calls calls c)) = Inr (t, full)))"
proof -
  obtain h where h: "registry_calls calls c = c\<lparr>heap := h\<rparr>"
    using registry_calls_static by blast
  have d: "dom (h a) = dom (heap c a) \<union> added_to c a calls"
    using dom_registry_calls[of calls c a] by (simp add: h)
  have g: "fst (ChildContainer_get args (c\<lparr>heap := h\<rparr>)) =
        (case h a raw of None \<Rightarrow> Inl (KeyError raw) | Some full \<Rightarrow> Inr (t, full))"
    using assms(2,3) by (simp add: ChildContainer_get_def split: option.splits)
  show ?thesis
    unfolding h g using d by (auto split: option.splits)
qed

theorem get_lookup_error_iff_witness:
  "constructed video_container
   \<and> sanitize video_container [PyCls frame_cls, PyStr ''9''] = Inr (frame_cls, ''9'')
   \<and> sanitize video_container [PyCls frame_cls, PyStr ''8''] = Inr (frame_cls, ''8'')
   \<and> get_childtype_dict video_container frame_cls = Inr 3
   \<and> ''8'' \<in> dom (heap video_container 3) \<union> added_to video_container 3 [Add [PyStr ''video_1/8'']]
   \<and> fst (ChildContainer_get [PyCls frame_cls, PyStr ''9'']
           (registry_calls [Add [PyStr ''video_1/8'']] video_container)) = Inl (KeyError ''9'')
   \<and> (\<exists>full. fst (ChildContainer_get [PyCls frame_cls, PyStr ''8'']
           (registry_calls [Add [PyStr ''video_1/8'']] video_container)) = Inr (frame_cls, full))"
proof -
  have s9: "sanitize video_container [PyCls frame_cls, PyStr ''9''] = Inr (frame_cls, ''9'')"
    and s8: "sanitize video_container [PyCls frame_cls, PyStr ''8''] = Inr (frame_cls, ''8'')"
    and sa: "sanitize video_container [PyStr ''video_1/8''] = Inr (frame_cls, ''8'')"
    by (simp_all add: sanitize_def is_valid_childtype_def get_only_childtype_def video_defs id_defs)
  have g: "get_childtype_dict video_container frame_cls = Inr 3"
    by (simp add: get_childtype_dict_def video_defs)
  have d: "dom (heap video_container 3) = {''7''}"
    by (simp add: video_defs)
  have a: "added_to video_container 3 [Add [PyStr ''video_1/8'']] = {''8''}"
    by (auto simp: added_to_def sa g)
  have n9: "''9'' \<notin> dom (heap video_container 3)
      \<and> ''9'' \<notin> added_to video_container 3 [Add [PyStr ''video_1/8'']]"
    and i8: "''8'' \<in> dom (heap video_container 3)
      \<union> added_to video_container 3 [Add [PyStr ''video_1/8'']]"
    unfolding d a by simp_all
  from get_lookup_error_iff[OF video_constructed s9 g, of "[Add [PyStr ''video_1/8'']]"] n9
  have 1: "fst (ChildContainer_get [PyCls frame_cls, PyStr ''9'']
           (registry_calls [Add [PyStr ''video_1/8'']] video_container)) = Inl (KeyError ''9'')"
    by blast
  from get_lookup_error_iff[OF video_constructed s8 g, of "[Add [PyStr ''video_1/8'']]"] i8
  have 2: "\<exists>full. fst (ChildContainer_get [PyCls frame_cls, PyStr ''8'']
           (registry_calls [Add [PyStr ''video_1/8'']] video_container)) = Inr (frame_cls, full)"
    by blast
  show ?thesis
    using video_constructed s9 s8 g i8 1 2 by blast
qed

section \<open>Properties of the memory store\<close>

lemmas py_defs = py_bind_def py_return_def py_raise_def

lemma memory_getitem:
  "MemoryDict_getitem k s =
     (if k \<notin> set (keys s) then (Inl (KeyError (''No such item: '' @ k)), s)
      else case data s k of None \<Rightarrow> (Inl (KeyError k), s) | Some v \<Rightarrow> (Inr v, s))"
  by (simp add: MemoryDict_getitem_def ModalDict_getitem_def MemoryDict_get_item_def
      detect_keyerror_def contains_key_def data_getitem_def py_defs)

lemma memory_item_present:
  "MemoryDict_item_present k s =
     (if k \<notin> set (keys s) then (Inl (KeyError (''No such item: '' @ k)), s)
      else case data s k of None \<Rightarrow> (Inl (KeyError k), s) | Some v \<Rightarrow> (Inr (v \<noteq> PyNone), s))"
  by (simp add: MemoryDict_item_present_def memory_getitem py_defs split: option.splits)

lemma memory_setitem:
  "MemoryDict_setitem k v s =
     (if k \<notin> set (keys s) then (Inl (KeyError (''No such item: '' @ k)), s)
      else case metadata s k of
        None \<Rightarrow> (Inl (KeyError k), s)
      | Some a \<Rightarrow> (Inr (), s\<lparr>heap := (heap s)(a := (heap s a)(''present'' \<mapsto> PyBool True)),
                              data := (data s)(k \<mapsto> v)\<rparr>))"
  by (simp add: MemoryDict_setitem_def ModalDict_setitem_def MemoryDict_set_item_def
      detect_keyerror_def contains_key_def metadata_setitem_def py_defs split: option.splits)

lemma memory_delitem:
  "MemoryDict_delitem k s =
     (if k \<notin> set (keys s) then (Inl (KeyError (''No such item: '' @ k)), s)
      else case metadata s k of
        None \<Rightarrow> (Inl (KeyError k), s)
      | Some a \<Rightarrow> (Inr (), s\<lparr>heap := (heap s)(a := (heap s a)(''present'' \<mapsto> PyBool False)),
                              data := (data s)(k \<mapsto> PyNone)\<rparr>))"
  by (simp add: MemoryDict_delitem_def ModalDict_delitem_def MemoryDict_del_item_def
      detect_keyerror_def contains_key_def metadata_setitem_def py_defs split: option.splits)

lemma same_but_present_mono:
  "same_but_present A s1 s2 \<Longrightarrow> A \<subseteq> B \<Longrightarrow> same_but_present B s1 s2"
  by (auto simp: same_but_present_def present_apart_def)

lemma same_but_present_fields:
  assumes "same_but_present A s1 s2"
  shows "keys s2 = keys s1" "metadata s2 = metadata s1" "data s2 = data s1"
    "mongo_doc s2 = mongo_doc s1"
proof -
  from assms have e: "s2 = s1\<lparr>heap := heap s2\<rparr>"
    by (simp add: same_but_present_def)
  show "keys s2 = keys s1" by (subst e) simp
  show "metadata s2 = metadata s1" by (subst e) simp
  show "data s2 = data s1" by (subst e) simp
  show "mongo_doc s2 = mongo_doc s1" by (subst e) simp
qed

lemma same_but_present_empty: "same_but_present {} s1 s2 \<Longrightarrow> s2 = s1"
proof -
  assume a: "same_but_present {} s1 s2"
  then have "heap s2 = heap s1"
    by (auto simp: same_but_present_def present_apart_def)
  with a show ?thesis
    by (simp add: same_but_present_def)
qed

lemma memory_item_present_rel:
  assumes "same_but_present A s1 s2"
  shows "fst (MemoryDict_item_present k s2) = fst (MemoryDict_item_present k s1)"
    and "snd (MemoryDict_item_present k s1) = s1"
    and "snd (MemoryDict_item_present k s2) = s2"
  using same_but_present_fields[OF assms]
  by (simp_all add: memory_item_present split: option.splits)

lemma metadata_setitem_rel:
  assumes "same_but_present A s1 s2"
  shows "fst (metadata_setitem k ''present'' v s2) = fst (metadata_setitem k ''present'' v s1)"
    and "same_but_present (A - {a. metadata s1 k = Some a \<and> True})
           (snd (metadata_setitem k ''present'' v s1)) (snd (metadata_setitem k ''present'' v s2))"
proof -
  note f = same_but_present_fields[OF assms]
  show "fst (metadata_setitem k ''present'' v s2) = fst (metadata_setitem k ''present'' v s1)"
    by (simp add: metadata_setitem_def f split: option.splits)
  from assms have e: "s2 = s1\<lparr>heap := heap s2\<rparr>" and p: "present_apart A (heap s1) (heap s2)"
    by (simp_all add: same_but_present_def)
  show "same_but_present (A - {a. metadata s1 k = Some a \<and> True})
           (snd (metadata_setitem k ''present'' v s1)) (snd (metadata_setitem k ''present'' v s2))"
  proof (cases "metadata s1 k")
    case None
    then show ?thesis using assms f by (simp add: metadata_setitem_def)
  next
    case (Some a)
    have "present_apart (A - {a}) ((heap s1)(a := (heap s1 a)(''present'' \<mapsto> v)))
            ((heap s2)(a := (heap s2 a)(''present'' \<mapsto> v)))"
      using p by (auto simp: present_apart_def fun_eq_iff)
    moreover have "s2\<lparr>heap := (heap s2)(a := (heap s2 a)(''present'' \<mapsto> v))\<rparr>
        = s1\<lparr>heap := (heap s2)(a := (heap s2 a)(''present'' \<mapsto> v))\<rparr>"
      by (subst e) simp
    ultimately show ?thesis
      using Some f by (simp add: metadata_setitem_def same_but_present_def)
  qed
qed

lemma metadata_setitem_fields:
  "keys (snd (metadata_setitem k f v s)) = keys s"
  "metadata (snd (metadata_setitem k f v s)) = metadata s"
  "data (snd (metadata_setitem k f v s)) = data s"
  by (simp_all add: metadata_setitem_def split: option.splits)

lemma update_loop_Cons:
  "update_loop ip (k # ks) s =
     (case ip k s of
        (Inl e, s') \<Rightarrow> (Inl e, s')
      | (Inr b, s') \<Rightarrow>
          (case metadata_setitem k ''present'' (PyBool b) s' of
             (Inl e, s'') \<Rightarrow> (Inl e, s'')
           | (Inr _, s'') \<Rightarrow> update_loop ip ks s''))"
  by (simp add: py_bind_def split: prod.splits sum.splits)

lemma py_bind_inv:
  assumes "P s" and "\<And>s. P s \<Longrightarrow> P (snd (m s))" and "\<And>x s. P s \<Longrightarrow> P (snd (f x s))"
  shows "P (snd (py_bind m f s))"
proof (cases "m s")
  case (Pair r s')
  with assms(2)[OF assms(1)] have "P s'"
    by simp
  with Pair assms(3) show ?thesis
    by (cases r) (simp_all add: py_bind_def)
qed

lemma update_loop_inv:
  assumes "P s" and "\<And>k s. P s \<Longrightarrow> P (snd (ip k s))"
    and "\<And>k b s. P s \<Longrightarrow> P (snd (metadata_setitem k ''present'' (PyBool b) s))"
  shows "P (snd (update_loop ip ks s))"
  using assms(1)
proof (induction ks arbitrary: s)
  case Nil
  then show ?case by (simp add: py_return_def)
next
  case (Cons k ks)
  show ?case
    unfolding update_loop.simps
  proof (rule py_bind_inv[where P = P])
    show "P s" by (rule Cons.prems)
  next
    fix t assume "P t"
    then show "P (snd (ip k t))" by (rule assms(2))
  next
    fix b t assume t: "P t"
    show "P (snd (py_bind (metadata_setitem k ''present'' (PyBool b))
                 (\<lambda>_. update_loop ip ks) t))"
    proof (rule py_bind_inv[where P = P])
      show "P t" by (rule t)
    next
      fix t' assume "P t'"
      then show "P (snd (metadata_setitem k ''present'' (PyBool b) t'))" by (rule assms(3))
    next
      fix x t' assume "P t'"
      then show "P (snd (update_loop ip ks t'))" by (rule Cons.IH)
    qed
  qed
qed

lemma memory_item_present_state [simp]: "snd (MemoryDict_item_present k s) = s"
  by (simp add: memory_item_present split: option.splits)

lemma memory_update_loop_fields:
  "keys (snd (update_loop MemoryDict_item_present ks s)) = keys s
   \<and> metadata (snd (update_loop MemoryDict_item_present ks s)) = metadata s
   \<and> data (snd (update_loop MemoryDict_item_present ks s)) = data s"
  by (rule update_loop_inv[where P = "\<lambda>t. keys t = keys s \<and> metadata t = metadata s \<and> data t = data s"])
     (simp_all add: metadata_setitem_fields)

lemma memory_update_loop_rel:
  assumes "same_but_present A s1 s2"
  shows "fst (update_loop MemoryDict_item_present ks s2) = fst (update_loop MemoryDict_item_present ks s1)
     \<and> same_but_present
         (if fst (update_loop MemoryDict_item_present ks s1) = Inr ()
          then A - {a. \<exists>k \<in> set ks. metadata s1 k = Some a} else A)
         (snd (update_loop MemoryDict_item_present ks s1))
         (snd (update_loop MemoryDict_item_present ks s2))"
  using assms
proof (induction ks arbitrary: A s1 s2)
  case Nil
  then show ?case by (simp add: py_return_def)
next
  case (Cons k ks)
  note r = Cons.prems
  note ip = memory_item_present_rel[OF r, of k]
  obtain rb where i1: "MemoryDict_item_present k s1 = (rb, s1)"
    and i2: "MemoryDict_item_present k s2 = (rb, s2)"
    using ip by (metis prod.collapse)
  show ?case
  proof (cases rb)
    case (Inl e)
    with i1 i2 r show ?thesis
      by (simp add: py_bind_def)
  next
    case (Inr b)
    let ?A = "A - {a. metadata s1 k = Some a \<and> True}"
    note ms = metadata_setitem_rel[OF r, of k "PyBool b"]
    obtain ru t1 t2 where m1: "metadata_setitem k ''present'' (PyBool b) s1 = (ru, t1)"
      and m2: "metadata_setitem k ''present'' (PyBool b) s2 = (ru, t2)"
      using ms(1) by (metis prod.collapse)
    have rel: "same_but_present ?A t1 t2"
      using ms(2) m1 m2 by simp
    show ?thesis
    proof (cases ru)
      case (Inl e)
      have "same_but_present A t1 t2"
        using rel by (rule same_but_present_mono) auto
      with Inl Inr i1 i2 m1 m2 show ?thesis
        by (simp add: py_bind_def)
    next
      case (Inr u)
      have u1: "update_loop MemoryDict_item_present (k # ks) s1
                 = update_loop MemoryDict_item_present ks t1"
        and u2: "update_loop MemoryDict_item_present (k # ks) s2
                 = update_loop MemoryDict_item_present ks t2"
        using i1 i2 m1 m2 Inr \<open>rb = Inr b\<close> by (simp_all add: py_bind_def)
      have mt: "metadata t1 = metadata s1"
        using metadata_setitem_fields(2)[of k "''present''" "PyBool b" s1] m1 by simp
      note ih = Cons.IH[OF rel]
      have sub: "?A - {a. \<exists>k \<in> set ks. metadata s1 k = Some a}
                  = A - {a. \<exists>k' \<in> set (k # ks). metadata s1 k' = Some a}"
        by auto
      have mono: "same_but_present ?A (snd (update_loop MemoryDict_item_present ks t1))
           (snd (update_loop MemoryDict_item_present ks t2))
         \<Longrightarrow> same_but_present A (snd (update_loop MemoryDict_item_present ks t1))
           (snd (update_loop MemoryDict_item_present ks t2))"
        by (rule same_but_present_mono) auto
      show ?thesis
      proof (cases "fst (update_loop MemoryDict_item_present ks t1) = Inr ()")
        case True
        with ih show ?thesis
          unfolding u1 u2 mt sub by simp
      next
        case False
        with ih mono show ?thesis
          unfolding u1 u2 by simp
      qed
    qed
  qed
qed


lemma present_filter_rel:
  assumes "same_but_present B s1 s2"
    and "\<And>k a. k \<in> set ks \<Longrightarrow> metadata s1 k = Some a \<Longrightarrow> a \<notin> B"
  shows "present_filter ks s2 = present_filter ks s1"
  using assms(2)
proof (induction ks)
  case Nil
  then show ?case by simp
next
  case (Cons k ks)
  note f = same_but_present_fields[OF assms(1)]
  have g: "metadata_getitem k ''present'' s2 = metadata_getitem k ''present'' s1"
  proof (cases "metadata s1 k")
    case None
    then show ?thesis by (simp add: metadata_getitem_def f)
  next
    case (Some a)
    then have "a \<notin> B" using Cons.prems[of k a] by simp
    then have "heap s2 a = heap s1 a"
      using assms(1) by (simp add: same_but_present_def present_apart_def)
    with Some show ?thesis by (simp add: metadata_getitem_def f)
  qed
  have "present_filter ks s2 = present_filter ks s1"
  proof (rule Cons.IH)
    fix k' a assume "k' \<in> set ks" and "metadata s1 k' = Some a"
    then show "a \<notin> B" using Cons.prems[of k' a] by simp
  qed
  with g show ?case by (simp split: sum.splits)
qed

lemma memory_present_items_rel:
  assumes "same_but_present A s1 s2"
  shows "fst (MemoryDict_present_items s2) = fst (MemoryDict_present_items s1)
       \<and> same_but_present A (snd (MemoryDict_present_items s1)) (snd (MemoryDict_present_items s2))"
proof -
  note f = same_but_present_fields[OF assms]
  note ul = memory_update_loop_rel[OF assms, of "keys s1"]
  obtain ru t1 t2 where u1: "update_loop MemoryDict_item_present (keys s1) s1 = (ru, t1)"
    and u2: "update_loop MemoryDict_item_present (keys s1) s2 = (ru, t2)"
    using ul by (metis prod.collapse)
  note fl = memory_update_loop_fields[of "keys s1" s1]
  have k1: "keys t1 = keys s1" and m1: "metadata t1 = metadata s1"
    using fl u1 by simp_all
  show ?thesis
  proof (cases ru)
    case (Inl e)
    with ul u1 u2 have "same_but_present A t1 t2" by simp
    with Inl u1 u2 show ?thesis
      by (simp add: MemoryDict_present_items_def present_items_def update_item_metadata_def
          py_bind_def f)
  next
    case (Inr u)
    with ul u1 u2
    have rel: "same_but_present (A - {a. \<exists>k \<in> set (keys s1). metadata s1 k = Some a}) t1 t2"
      by simp
    then have relA: "same_but_present A t1 t2"
      by (rule same_but_present_mono) auto
    have k2: "keys t2 = keys t1"
      using same_but_present_fields(1)[OF relA] .
    have pf: "present_filter (keys t1) t2 = present_filter (keys t1) t1"
      by (rule present_filter_rel[OF rel]) (auto simp: k1 m1)
    from Inr u1 u2 pf k2 relA show ?thesis
      by (simp add: MemoryDict_present_items_def present_items_def update_item_metadata_def
          py_bind_def f split: sum.splits)
  qed
qed

lemma memory_absent_items_rel:
  assumes "same_but_present A s1 s2"
  shows "fst (MemoryDict_absent_items s2) = fst (MemoryDict_absent_items s1)
       \<and> same_but_present A (snd (MemoryDict_absent_items s1)) (snd (MemoryDict_absent_items s2))"
proof -
  note f = same_but_present_fields[OF assms]
  note p = memory_present_items_rel[OF assms]
  obtain r t1 t2 where p1: "MemoryDict_present_items s1 = (r, t1)"
    and p2: "MemoryDict_present_items s2 = (r, t2)"
    using p by (metis prod.collapse)
  with p have "same_but_present A t1 t2" by simp
  with p1 p2 show ?thesis
    unfolding MemoryDict_absent_items_def absent_items_def
    using p1[unfolded MemoryDict_present_items_def] p2[unfolded MemoryDict_present_items_def]
    by (cases r) (simp_all add: py_bind_def py_return_def f)
qed

lemma same_but_present_write:
  assumes "same_but_present A s1 s2"
  shows "same_but_present A
     (s1\<lparr>heap := (heap s1)(a := (heap s1 a)(''present'' \<mapsto> v)), data := d\<rparr>)
     (s2\<lparr>heap := (heap s2)(a := (heap s2 a)(''present'' \<mapsto> v)), data := d\<rparr>)"
proof -
  from assms have e: "s2 = s1\<lparr>heap := heap s2\<rparr>" and p: "present_apart A (heap s1) (heap s2)"
    by (simp_all add: same_but_present_def)
  have "present_apart A ((heap s1)(a := (heap s1 a)(''present'' \<mapsto> v)))
            ((heap s2)(a := (heap s2 a)(''present'' \<mapsto> v)))"
    using p by (auto simp: present_apart_def fun_eq_iff)
  moreover have "s2\<lparr>heap := (heap s2)(a := (heap s2 a)(''present'' \<mapsto> v)), data := d\<rparr>
        = s1\<lparr>heap := (heap s2)(a := (heap s2 a)(''present'' \<mapsto> v)), data := d\<rparr>"
    by (subst e) simp
  ultimately show ?thesis
    by (simp add: same_but_present_def)
qed

lemma memory_call_rel:
  assumes "same_but_present A s1 s2"
  shows "fst (MemoryDict_call x s2) = fst (MemoryDict_call x s1)
       \<and> same_but_present A (snd (MemoryDict_call x s1)) (snd (MemoryDict_call x s2))"
proof (cases x)
  case (Getitem k)
  with assms same_but_present_fields[OF assms] show ?thesis
    by (simp add: memory_getitem py_bind_def py_return_def split: option.splits)
next
  case (Setitem k v)
  with assms same_but_present_fields[OF assms] same_but_present_write[OF assms] show ?thesis
    by (simp add: memory_setitem py_bind_def py_return_def split: option.splits)
next
  case (Delitem k)
  with assms same_but_present_fields[OF assms] same_but_present_write[OF assms] show ?thesis
    by (simp add: memory_delitem py_bind_def py_return_def split: option.splits)
next
  case (ItemPresent k)
  with assms same_but_present_fields[OF assms] show ?thesis
    by (simp add: memory_item_present py_bind_def py_return_def split: option.splits)
next
  case PresentItems
  note p = memory_present_items_rel[OF assms]
  obtain r t1 t2 where "MemoryDict_present_items s1 = (r, t1)"
    and "MemoryDict_present_items s2 = (r, t2)"
    using p by (metis prod.collapse)
  with p PresentItems show ?thesis
    by (cases r) (simp_all add: py_bind_def py_return_def)
next
  case AbsentItems
  note p = memory_absent_items_rel[OF assms]
  obtain r t1 t2 where "MemoryDict_absent_items s1 = (r, t1)"
    and "MemoryDict_absent_items s2 = (r, t2)"
    using p by (metis prod.collapse)
  with p AbsentItems show ?thesis
    by (cases r) (simp_all add: py_bind_def py_return_def)
qed

lemma memory_calls_rel:
  "same_but_present A s1 s2 \<Longrightarrow> fst (MemoryDict_calls xs s2) = fst (MemoryDict_calls xs s1)"
proof (induction xs arbitrary: s1 s2)
  case Nil
  then show ?case by simp
next
  case (Cons x xs)
  note c = memory_call_rel[OF Cons.prems, of x]
  obtain r t1 t2 where c1: "MemoryDict_call x s1 = (r, t1)" and c2: "MemoryDict_call x s2 = (r, t2)"
    using c by (metis prod.collapse)
  with c have "same_but_present A t1 t2" by simp
  from Cons.IH[OF this] c1 c2 show ?case
    by (cases "MemoryDict_calls xs t1"; cases "MemoryDict_calls xs t2") simp
qed


lemma dict_comp_dom: "dict_comp f ks = Inr m \<Longrightarrow> dom m = set ks"
proof (induction ks arbitrary: m)
  case Nil
  then show ?case by simp
next
  case (Cons k ks)
  from Cons.prems obtain v m' where "dict_comp f ks = Inr m'" and "m = m'(k \<mapsto> v)"
    by (auto split: sum.splits)
  then have "dom m' = set ks" and "dom m = insert k (dom m')"
    using Cons.IH[of m'] by (auto simp: dom_def split: if_splits)
  then show ?case by simp
qed

lemma py_bind_InrE:
  assumes "py_bind m f s = (Inr y, s'')"
  obtains x s' where "m s = (Inr x, s')" and "f x s' = (Inr y, s'')"
  using assms by (auto simp: py_bind_def split: prod.splits sum.splits)

lemma modal_init_result:
  assumes "ModalDict_init m doc schema s = (Inr (), s')"
  shows "dom (metadata s') = set (keys s')" and "dom (data s') = set (keys s')"
    and "heap s' = heap s"
proof -
  let ?ks = "remdups (map fst (filter (\<lambda>(k, v). mode v = m) schema))"
  from assms obtain md d where md: "dict_comp (subscript (items doc)) ?ks = Inr md"
    and d: "dict_comp (\<lambda>k. Inr PyNone) ?ks = Inr d"
    and s': "s' = s\<lparr>mongo_doc := doc, keys := ?ks, metadata := md, data := d\<rparr>"
    by (auto simp: ModalDict_init_def Let_def split: sum.splits)
  show "dom (metadata s') = set (keys s')" "dom (data s') = set (keys s')" "heap s' = heap s"
    using dict_comp_dom[OF md] dict_comp_dom[OF d] by (simp_all add: s')
qed

lemma memory_init_ok:
  assumes "MemoryDict_new h doc schema = (Inr (), s)"
  shows "store_ok s"
proof -
  from assms[unfolded MemoryDict_new_def MemoryDict_init_def]
  obtain s1 s2 where i: "ModalDict_init ''memory'' doc schema
        \<lparr> heap = h, mongo_doc = doc, keys = [], metadata = Map.empty, data = Map.empty \<rparr>
        = (Inr (), s1)"
    and l: "(case dict_comp (\<lambda>k. case subscript (items doc) k of
                                          Inl e \<Rightarrow> Inl e
                                        | Inr a \<Rightarrow> subscript (heap s1 a) ''data'') (keys s1) of
                    Inl e \<Rightarrow> (Inl e, s1)
                  | Inr d \<Rightarrow> (Inr (), s1\<lparr>data := d\<rparr>)) = (Inr (), s2)"
    and u: "update_item_metadata MemoryDict_item_present s2 = (Inr (), s)"
    by (elim py_bind_InrE) auto
  from l obtain d where d: "dict_comp (\<lambda>k. case subscript (items doc) k of
                                          Inl e \<Rightarrow> Inl e
                                        | Inr a \<Rightarrow> subscript (heap s1 a) ''data'') (keys s1) = Inr d"
    and s2: "s2 = s1\<lparr>data := d\<rparr>"
    by (auto split: sum.splits)
  have "keys s = keys s2 \<and> metadata s = metadata s2 \<and> data s = data s2"
    using memory_update_loop_fields[of "keys s2" s2] u
    by (simp add: update_item_metadata_def)
  then have "keys s = keys s1" "dom (metadata s) = set (keys s1)" "dom (data s) = set (keys s1)"
    using modal_init_result(1)[OF i] dict_comp_dom[OF d] by (simp_all add: s2)
  then show ?thesis
    unfolding store_ok_def by (metis domIff)
qed

lemmas video_memory_eval = video_memory_def MemoryDict_new_def MemoryDict_init_def
  ModalDict_init_def py_bind_def Let_def video_schema_def read_bytes_def write_bytes_def video_doc_def video_heap_def
  subscript_def update_item_metadata_def memory_item_present metadata_setitem_def py_return_def

lemma video_memory_new: "MemoryDict_new video_heap video_doc video_schema = (Inr (), video_memory)"
proof -
  have "fst (MemoryDict_new video_heap video_doc video_schema) = Inr ()"
    by (simp add: video_memory_eval)
  then show ?thesis
    by (simp add: video_memory_def prod_eq_iff)
qed

lemma video_memory_fields:
  "keys video_memory = [''caption'']"
  "metadata video_memory = [''caption'' \<mapsto> 1]"
  "data video_memory = [''caption'' \<mapsto> PyStr ''a cat'']"
  "heap video_memory 1 ''present'' = Some (PyBool True)"
  by (simp_all add: video_memory_eval)

lemma video_memory_ok: "store_ok video_memory"
  using video_memory_new by (rule memory_init_ok)


text \<open>
  Claim C10. On a memory store as constructed, for every declared key \<open>k\<close> and every
  value \<open>v\<close> (the sentinel included), \<^verbatim>\<open>store[k] = v\<close> returns and
  \<^verbatim>\<open>store[k]\<close> right after it returns \<open>v\<close>.
\<close>

theorem memory_round_trip:
  assumes "store_ok s" and "k \<in> set (keys s)"
  shows "fst (MemoryDict_setitem k v s) = Inr ()
       \<and> fst (MemoryDict_getitem k (snd (MemoryDict_setitem k v s))) = Inr v"
  using assms by (auto simp: store_ok_def memory_setitem memory_getitem split: option.splits)

theorem memory_round_trip_witness:
  "store_ok video_memory \<and> ''caption'' \<in> set (keys video_memory)
   \<and> fst (MemoryDict_setitem ''caption'' (PyStr ''a dog'') video_memory) = Inr ()
   \<and> fst (MemoryDict_getitem ''caption''
            (snd (MemoryDict_setitem ''caption'' (PyStr ''a dog'') video_memory)))
       = Inr (PyStr ''a dog'')"
proof -
  have k: "''caption'' \<in> set (keys video_memory)"
    by (simp add: video_memory_fields)
  from memory_round_trip[OF video_memory_ok k, of "PyStr ''a dog''"] video_memory_ok k
  show ?thesis by simp
qed

text \<open>
  Claim C7. On a memory store as constructed, for every declared key \<open>k\<close>:
  \<^verbatim>\<open>del store[k]\<close> returns and \<^verbatim>\<open>store[k]\<close> then returns \<^verbatim>\<open>None\<close>; every
  sequence of later calls (the queries \<^verbatim>\<open>store[k']\<close>, \<^verbatim>\<open>item_present\<close>,
  \<^verbatim>\<open>present_items\<close>, \<^verbatim>\<open>absent_items\<close>, and writes as well) has the same outcomes
  after \<^verbatim>\<open>del store[k]\<close> as after \<^verbatim>\<open>store[k] = None\<close>; and the item is present
  after \<^verbatim>\<open>store[k] = v\<close> exactly when \<open>v\<close> is not \<^verbatim>\<open>None\<close>, and absent after
  the delete.
\<close>

theorem memory_delete_is_set_sentinel:
  assumes "store_ok s" and "k \<in> set (keys s)"
  shows "fst (MemoryDict_delitem k s) = Inr ()
     \<and> fst (MemoryDict_getitem k (snd (MemoryDict_delitem k s))) = Inr PyNone
     \<and> fst (MemoryDict_calls qs (snd (MemoryDict_delitem k s)))
         = fst (MemoryDict_calls qs (snd (MemoryDict_setitem k PyNone s)))
     \<and> fst (MemoryDict_item_present k (snd (MemoryDict_setitem k v s))) = Inr (v \<noteq> PyNone)
     \<and> fst (MemoryDict_item_present k (snd (MemoryDict_delitem k s))) = Inr False"
proof -
  from assms obtain a where a: "metadata s k = Some a"
    by (auto simp: store_ok_def)
  let ?d = "s\<lparr>heap := (heap s)(a := (heap s a)(''present'' \<mapsto> PyBool False)),
               data := (data s)(k \<mapsto> PyNone)\<rparr>"
  let ?t = "s\<lparr>heap := (heap s)(a := (heap s a)(''present'' \<mapsto> PyBool True)),
               data := (data s)(k \<mapsto> PyNone)\<rparr>"
  have d: "MemoryDict_delitem k s = (Inr (), ?d)"
    and t: "MemoryDict_setitem k PyNone s = (Inr (), ?t)"
    using assms(2) a by (simp_all add: memory_delitem memory_setitem)
  have "same_but_present {a} ?t ?d"
    by (auto simp: same_but_present_def present_apart_def)
  then have "fst (MemoryDict_calls qs ?d) = fst (MemoryDict_calls qs ?t)"
    by (rule memory_calls_rel)
  moreover have "fst (MemoryDict_getitem k ?d) = Inr PyNone"
    using assms(2) by (simp add: memory_getitem)
  moreover have "fst (MemoryDict_item_present k (snd (MemoryDict_setitem k v s))) = Inr (v \<noteq> PyNone)"
    using assms(2) a by (simp add: memory_setitem memory_item_present)
  moreover have "fst (MemoryDict_item_present k ?d) = Inr False"
    using assms(2) by (simp add: memory_item_present)
  ultimately show ?thesis
    by (simp add: d t)
qed

theorem memory_delete_is_set_sentinel_witness:
  "store_ok video_memory \<and> ''caption'' \<in> set (keys video_memory)
   \<and> fst (MemoryDict_getitem ''caption'' (snd (MemoryDict_delitem ''caption'' video_memory)))
       = Inr PyNone
   \<and> fst (MemoryDict_calls [Getitem ''caption'', ItemPresent ''caption'', PresentItems, AbsentItems]
            (snd (MemoryDict_setitem ''caption'' PyNone video_memory)))
       = [Inr (RVal PyNone), Inr (RBool False), Inr (RKeys {}), Inr (RKeys {''caption''})]
   \<and> fst (MemoryDict_calls [Getitem ''caption'', ItemPresent ''caption'', PresentItems, AbsentItems]
            (snd (MemoryDict_delitem ''caption'' video_memory)))
       = [Inr (RVal PyNone), Inr (RBool False), Inr (RKeys {}), Inr (RKeys {''caption''})]"
proof -
  have k: "''caption'' \<in> set (keys video_memory)"
    by (simp add: video_memory_fields)
  let ?qs = "[Getitem ''caption'', ItemPresent ''caption'', PresentItems, AbsentItems]"
  have c: "fst (MemoryDict_calls ?qs (snd (MemoryDict_setitem ''caption'' PyNone video_memory)))
       = [Inr (RVal PyNone), Inr (RBool False), Inr (RKeys {}), Inr (RKeys {''caption''})]"
    by (simp add: memory_setitem memory_getitem memory_item_present video_memory_fields
        MemoryDict_present_items_def MemoryDict_absent_items_def present_items_def absent_items_def
        update_item_metadata_def metadata_setitem_def metadata_getitem_def subscript_def
        py_bind_def py_return_def)
  from memory_delete_is_set_sentinel[OF video_memory_ok k, of ?qs] video_memory_ok k c
  show ?thesis by simp
qed

section \<open>Properties of the disk store\<close>

subsection \<open>The constructor\<close>

lemma disk_detect:
  "detect_keyerror k s =
     (if k \<in> set (keys s) then (Inr (), s) else (Inl (KeyError (''No such item: '' @ k)), s))"
  by (simp add: detect_keyerror_def contains_key_def)

lemma disk_item_present_state [simp]: "snd (DiskDict_item_present k s) = s"
  by (simp add: DiskDict_item_present_def split: option.splits)

lemma disk_update_loop_fields:
  "keys (snd (update_loop DiskDict_item_present ks s)) = keys s
   \<and> metadata (snd (update_loop DiskDict_item_present ks s)) = metadata s
   \<and> data (snd (update_loop DiskDict_item_present ks s)) = data s
   \<and> fs (snd (update_loop DiskDict_item_present ks s)) = fs s
   \<and> load_funcs (snd (update_loop DiskDict_item_present ks s)) = load_funcs s
   \<and> save_funcs (snd (update_loop DiskDict_item_present ks s)) = save_funcs s
   \<and> paths (snd (update_loop DiskDict_item_present ks s)) = paths s"
  by (rule update_loop_inv[where P = "\<lambda>t. keys t = keys s \<and> metadata t = metadata s
        \<and> data t = data s \<and> fs t = fs s \<and> load_funcs t = load_funcs s
        \<and> save_funcs t = save_funcs s \<and> paths t = paths s"])
     (simp_all add: metadata_setitem_def split: option.splits)

lemma disk_init_ok:
  assumes "DiskDict_new h f doc schema = (Inr (), s)"
  shows "disk_ok s"
proof -
  from assms[unfolded DiskDict_new_def DiskDict_init_def]
  obtain s1 s2 where i: "ModalDict_init ''disk'' doc schema
        \<lparr> heap = h, mongo_doc = doc, keys = [], metadata = Map.empty, data = Map.empty,
          fs = f, load_funcs = Map.empty, save_funcs = Map.empty, paths = Map.empty \<rparr>
        = (Inr (), s1)"
    and l: "(case dict_comp (schema_entry schema load_func ''load_func'') (keys s1) of
          Inl e \<Rightarrow> (Inl e, s1)
        | Inr lf \<Rightarrow>
        (case dict_comp (schema_entry schema save_func ''save_func'') (keys s1) of
          Inl e \<Rightarrow> (Inl e, s1\<lparr>load_funcs := lf\<rparr>)
        | Inr sf \<Rightarrow>
        (case dict_comp (\<lambda>k. case schema_entry schema filename ''filename'' k of
                               Inl e \<Rightarrow> Inl e
                             | Inr fn \<Rightarrow> Inr (os_path_join (root doc) fn)) (keys s1) of
          Inl e \<Rightarrow> (Inl e, s1\<lparr>load_funcs := lf, save_funcs := sf\<rparr>)
        | Inr ps \<Rightarrow>
        (case dict_comp (\<lambda>k. Inr PyNone) (keys s1) of
          Inl e \<Rightarrow> (Inl e, s1\<lparr>load_funcs := lf, save_funcs := sf, paths := ps\<rparr>)
        | Inr d \<Rightarrow>
            (Inr (), s1\<lparr>load_funcs := lf, save_funcs := sf, paths := ps, data := d\<rparr>)))))
       = (Inr (), s2)"
    and u: "update_item_metadata DiskDict_item_present s2 = (Inr (), s)"
    by (elim py_bind_InrE) auto
  from l obtain lf sf ps d where
    lf: "dict_comp (schema_entry schema load_func ''load_func'') (keys s1) = Inr lf"
    and sf: "dict_comp (schema_entry schema save_func ''save_func'') (keys s1) = Inr sf"
    and ps: "dict_comp (\<lambda>k. case schema_entry schema filename ''filename'' k of
                               Inl e \<Rightarrow> Inl e
                             | Inr fn \<Rightarrow> Inr (os_path_join (root doc) fn)) (keys s1) = Inr ps"
    and d: "dict_comp (\<lambda>k. Inr PyNone) (keys s1) = Inr d"
    and s2: "s2 = s1\<lparr>load_funcs := lf, save_funcs := sf, paths := ps, data := d\<rparr>"
    by (auto split: sum.splits)
  note fl = disk_update_loop_fields[of "keys s2" s2]
  have e: "keys s = keys s1" "metadata s = metadata s1" "data s = d" "load_funcs s = lf"
    "save_funcs s = sf" "paths s = ps"
    using fl u by (simp_all add: update_item_metadata_def s2)
  have "dom (metadata s) = set (keys s)" "dom (data s) = set (keys s)"
    "dom (load_funcs s) = set (keys s)" "dom (save_funcs s) = set (keys s)"
    "dom (paths s) = set (keys s)"
    using modal_init_result(1)[OF i] dict_comp_dom[OF lf] dict_comp_dom[OF sf]
      dict_comp_dom[OF ps] dict_comp_dom[OF d] by (simp_all add: e)
  then show ?thesis
    unfolding disk_ok_def store_ok_def by (metis domIff)
qed

lemmas video_disk_eval = DiskDict_new_def DiskDict_init_def
  ModalDict_init_def py_bind_def Let_def video_schema_def video_doc_def video_heap_def video_fs_def
  subscript_def schema_entry_def update_item_metadata_def DiskDict_item_present_def
  metadata_setitem_def py_return_def os_path_join_def os_path_exists_def startswith_def

lemma video_disk_new:
  "DiskDict_new video_heap video_fs video_doc video_schema = (Inr (), video_disk)"
proof -
  have "fst (DiskDict_new video_heap video_fs video_doc video_schema) = Inr ()"
    by (simp add: video_disk_eval)
  then show ?thesis
    by (simp add: video_disk_def prod_eq_iff)
qed

lemma video_disk_empty_new:
  "DiskDict_new video_heap [''/data/video_1'' \<mapsto> Dir] video_doc video_schema
     = (Inr (), video_disk_empty)"
proof -
  have "fst (DiskDict_new video_heap [''/data/video_1'' \<mapsto> Dir] video_doc video_schema) = Inr ()"
    by (simp add: video_disk_eval)
  then show ?thesis
    by (simp add: video_disk_empty_def prod_eq_iff)
qed

lemma video_disk_fields:
  "keys video_disk = [''thumbnail'']"
  "metadata video_disk = [''thumbnail'' \<mapsto> 2]"
  "data video_disk = [''thumbnail'' \<mapsto> PyNone]"
  "paths video_disk = [''thumbnail'' \<mapsto> ''/data/video_1/thumb.jpg'']"
  "load_funcs video_disk = [''thumbnail'' \<mapsto> read_bytes]"
  "fs video_disk = video_fs"
  by (simp_all add: video_disk_def video_disk_eval)

lemma video_disk_empty_fields:
  "keys video_disk_empty = [''thumbnail'']"
  "metadata video_disk_empty = [''thumbnail'' \<mapsto> 2]"
  "data video_disk_empty = [''thumbnail'' \<mapsto> PyNone]"
  "paths video_disk_empty = [''thumbnail'' \<mapsto> ''/data/video_1/thumb.jpg'']"
  "fs video_disk_empty = [''/data/video_1'' \<mapsto> Dir]"
  by (simp_all add: video_disk_empty_def video_disk_eval)

lemma video_disk_ok: "disk_ok video_disk"
  using video_disk_new by (rule disk_init_ok)

lemma video_disk_empty_ok: "disk_ok video_disk_empty"
  using video_disk_empty_new by (rule disk_init_ok)

subsection \<open>Reading and deleting\<close>

lemma disk_get_item_cached:
  assumes "data s k = Some v" and "v \<noteq> PyNone"
  shows "DiskDict_get_item k s = (Inr v, s)"
  using assms by (simp add: DiskDict_get_item_def data_getitem_def py_defs)

lemma disk_get_item_absent:
  assumes "data s k = Some PyNone" and "paths s k = Some p" and "fs s p = None"
  shows "DiskDict_get_item k s = (Inr PyNone, s)"
  using assms
  by (simp add: DiskDict_get_item_def data_getitem_def DiskDict_item_present_def
      os_path_exists_def py_defs)

lemma disk_get_item_load:
  assumes "k \<in> set (keys s)" and "data s k = Some PyNone" and "paths s k = Some p"
    and "fs s p \<noteq> None" and "load_funcs s k = Some f" and "f (fs s) p = Inr v"
  shows "DiskDict_get_item k s = (Inr v, s\<lparr>data := (data s)(k \<mapsto> v)\<rparr>)"
  using assms
  by (simp add: DiskDict_get_item_def data_getitem_def DiskDict_item_present_def
      DiskDict_load_item_def contains_key_def os_path_exists_def py_defs)

text \<open>
  The read hook of a disk store on a declared key \<open>k\<close> whose entry in
  \<^verbatim>\<open>self.data\<close> is there. If \<^verbatim>\<open>self.data[k]\<close> is \<^verbatim>\<open>None\<close> and the path of \<open>k\<close>
  exists, the load function of \<open>k\<close> is applied to the path; the value \<open>v\<close> it returns
  is stored in \<^verbatim>\<open>self.data[k]\<close> and returned. If a value other than \<^verbatim>\<open>None\<close> is
  cached, it is returned and nothing changes: no load function is called. If
  \<^verbatim>\<open>self.data[k]\<close> is \<^verbatim>\<open>None\<close> and the path does not exist, \<^verbatim>\<open>None\<close> is returned
  and nothing changes.
\<close>

lemma disk_get_cache_aside:
  assumes "k \<in> set (keys s)"
  shows "(data s k = Some PyNone \<and> paths s k = Some p \<and> fs s p \<noteq> None
            \<and> load_funcs s k = Some f \<and> f (fs s) p = Inr v
          \<longrightarrow> DiskDict_getitem k s = (Inr v, s\<lparr>data := (data s)(k \<mapsto> v)\<rparr>))
       \<and> (data s k = Some w \<and> w \<noteq> PyNone \<longrightarrow> DiskDict_getitem k s = (Inr w, s))
       \<and> (data s k = Some PyNone \<and> paths s k = Some p \<and> fs s p = None
          \<longrightarrow> DiskDict_getitem k s = (Inr PyNone, s))"
  using assms disk_get_item_cached[of s k w] disk_get_item_absent[of s k p]
    disk_get_item_load[of k s p f v]
  by (simp add: DiskDict_getitem_def ModalDict_getitem_def disk_detect py_bind_def)

lemma disk_get_cache_aside_examples:
  "''thumbnail'' \<in> set (keys video_disk)
   \<and> data video_disk ''thumbnail'' = Some PyNone
   \<and> paths video_disk ''thumbnail'' = Some ''/data/video_1/thumb.jpg''
   \<and> fs video_disk ''/data/video_1/thumb.jpg'' \<noteq> None
   \<and> load_funcs video_disk ''thumbnail'' = Some read_bytes
   \<and> read_bytes (fs video_disk) ''/data/video_1/thumb.jpg'' = Inr (PyStr ''JPEG'')
   \<and> DiskDict_getitem ''thumbnail'' video_disk
       = (Inr (PyStr ''JPEG''),
          video_disk\<lparr>data := (data video_disk)(''thumbnail'' \<mapsto> PyStr ''JPEG'')\<rparr>)
   \<and> DiskDict_getitem ''thumbnail''
         (video_disk\<lparr>data := (data video_disk)(''thumbnail'' \<mapsto> PyStr ''JPEG'')\<rparr>)
       = (Inr (PyStr ''JPEG''),
          video_disk\<lparr>data := (data video_disk)(''thumbnail'' \<mapsto> PyStr ''JPEG'')\<rparr>)
   \<and> fs video_disk_empty ''/data/video_1/thumb.jpg'' = None
   \<and> DiskDict_getitem ''thumbnail'' video_disk_empty = (Inr PyNone, video_disk_empty)"
proof -
  let ?p = "''/data/video_1/thumb.jpg''"
  let ?c = "video_disk\<lparr>data := (data video_disk)(''thumbnail'' \<mapsto> PyStr ''JPEG'')\<rparr>"
  have k: "''thumbnail'' \<in> set (keys video_disk)"
    and kc: "''thumbnail'' \<in> set (keys ?c)"
    and ke: "''thumbnail'' \<in> set (keys video_disk_empty)"
    by (simp_all add: video_disk_fields video_disk_empty_fields)
  have h1: "data video_disk ''thumbnail'' = Some PyNone \<and> paths video_disk ''thumbnail'' = Some ?p
      \<and> fs video_disk ?p \<noteq> None \<and> load_funcs video_disk ''thumbnail'' = Some read_bytes
      \<and> read_bytes (fs video_disk) ?p = Inr (PyStr ''JPEG'')"
    by (simp add: video_disk_fields video_fs_def read_bytes_def)
  have h2: "data ?c ''thumbnail'' = Some (PyStr ''JPEG'') \<and> PyStr ''JPEG'' \<noteq> PyNone"
    by simp
  have h3: "data video_disk_empty ''thumbnail'' = Some PyNone
      \<and> paths video_disk_empty ''thumbnail'' = Some ?p \<and> fs video_disk_empty ?p = None"
    by (simp add: video_disk_empty_fields)
  from disk_get_cache_aside[OF k, of ?p read_bytes "PyStr ''JPEG''"] h1
  have 1: "DiskDict_getitem ''thumbnail'' video_disk = (Inr (PyStr ''JPEG''), ?c)"
    by blast
  from disk_get_cache_aside[OF kc, of ?p read_bytes "PyStr ''JPEG''" "PyStr ''JPEG''"] h2
  have 2: "DiskDict_getitem ''thumbnail'' ?c = (Inr (PyStr ''JPEG''), ?c)"
    by blast
  from disk_get_cache_aside[OF ke, of ?p] h3
  have 3: "DiskDict_getitem ''thumbnail'' video_disk_empty = (Inr PyNone, video_disk_empty)"
    by blast
  from k h1 h3 1 2 3 show ?thesis
    by blast
qed

lemma disk_delitem:
  "DiskDict_delitem k s =
     (if k \<notin> set (keys s) then (Inl (KeyError (''No such item: '' @ k)), s)
      else case metadata s k of
        None \<Rightarrow> (Inl (KeyError k), s)
      | Some a \<Rightarrow>
         (let s1 = s\<lparr>heap := (heap s)(a := (heap s a)(''present'' \<mapsto> PyBool False))\<rparr> in
          case data s k of
            None \<Rightarrow> (Inl (KeyError k), s1)
          | Some _ \<Rightarrow>
             (let s2 = s1\<lparr>data := (data s)(k := None)\<rparr> in
              case paths s k of
                None \<Rightarrow> (Inl (KeyError k), s2)
              | Some p \<Rightarrow>
                 (case fs s p of
                    Some (File c) \<Rightarrow>
                      (Inr (), s2\<lparr>fs := (fs s)(p := None), data := (data s)(k \<mapsto> PyNone)\<rparr>)
                  | _ \<Rightarrow> (Inl (OSError p), s2)))))"
  by (simp add: DiskDict_delitem_def ModalDict_delitem_def DiskDict_del_item_def disk_detect
      metadata_setitem_def os_remove_def py_bind_def Let_def
      split: option.splits fsnode.splits)

text \<open>
  Claim C3. On a disk store as its constructor leaves it, for a declared key \<open>k\<close> whose
  path holds a regular file: \<^verbatim>\<open>del store[k]\<close> returns; afterwards
  \<^verbatim>\<open>item_present(k)\<close> is false and the path no longer exists; and a second
  \<^verbatim>\<open>del store[k]\<close> right after it raises the \<^verbatim>\<open>OSError\<close> of \<^verbatim>\<open>os.remove\<close>.
\<close>

theorem disk_delete_removes_file:
  assumes "disk_ok s" and "k \<in> set (keys s)" and "paths s k = Some p"
    and "fs s p = Some (File c)"
  shows "fst (DiskDict_delitem k s) = Inr ()
       \<and> fst (DiskDict_item_present k (snd (DiskDict_delitem k s))) = Inr False
       \<and> fs (snd (DiskDict_delitem k s)) p = None
       \<and> fst (DiskDict_delitem k (snd (DiskDict_delitem k s))) = Inl (OSError p)"
proof -
  from assms(1,2) obtain a v where a: "metadata s k = Some a" and v: "data s k = Some v"
    by (auto simp: disk_ok_def store_ok_def)
  let ?s' = "s\<lparr>heap := (heap s)(a := (heap s a)(''present'' \<mapsto> PyBool False)),
                fs := (fs s)(p := None), data := (data s)(k \<mapsto> PyNone)\<rparr>"
  have d: "DiskDict_delitem k s = (Inr (), ?s')"
    using assms(2,3,4) a v by (simp add: disk_delitem Let_def)
  have "fst (DiskDict_delitem k ?s') = Inl (OSError p)"
    using assms(2,3) a by (simp add: disk_delitem Let_def)
  moreover have "fst (DiskDict_item_present k ?s') = Inr False"
    using assms(3) by (simp add: DiskDict_item_present_def os_path_exists_def)
  ultimately show ?thesis
    by (simp add: d)
qed

theorem disk_delete_removes_file_witness:
  "disk_ok video_disk \<and> ''thumbnail'' \<in> set (keys video_disk)
   \<and> paths video_disk ''thumbnail'' = Some ''/data/video_1/thumb.jpg''
   \<and> fs video_disk ''/data/video_1/thumb.jpg'' = Some (File ''JPEG'')
   \<and> fst (DiskDict_delitem ''thumbnail'' video_disk) = Inr ()
   \<and> fst (DiskDict_item_present ''thumbnail'' (snd (DiskDict_delitem ''thumbnail'' video_disk)))
       = Inr False
   \<and> fs (snd (DiskDict_delitem ''thumbnail'' video_disk)) ''/data/video_1/thumb.jpg'' = None
   \<and> fst (DiskDict_delitem ''thumbnail'' (snd (DiskDict_delitem ''thumbnail'' video_disk)))
       = Inl (OSError ''/data/video_1/thumb.jpg'')"
proof -
  have k: "''thumbnail'' \<in> set (keys video_disk)"
    and p: "paths video_disk ''thumbnail'' = Some ''/data/video_1/thumb.jpg''"
    and f: "fs video_disk ''/data/video_1/thumb.jpg'' = Some (File ''JPEG'')"
    by (simp_all add: video_disk_fields video_fs_def)
  from disk_delete_removes_file[OF video_disk_ok k p f] video_disk_ok k p f
  show ?thesis by blast
qed

text \<open>
  Claim C4. On a disk store as its constructor leaves it, \<^verbatim>\<open>del store[k]\<close> of a
  declared key whose path does not exist raises the \<^verbatim>\<open>OSError\<close> of \<^verbatim>\<open>os.remove\<close>.
  Whenever \<^verbatim>\<open>del store[k]\<close> raises that \<^verbatim>\<open>OSError\<close>, the key is still declared, its
  entry in \<^verbatim>\<open>self.data\<close> is gone (removed before \<^verbatim>\<open>os.remove\<close> and not put back), and
  \<^verbatim>\<open>store[k]\<close> then raises \<^verbatim>\<open>KeyError(k)\<close> from the lookup in \<^verbatim>\<open>self.data\<close>, not
  returning \<^verbatim>\<open>None\<close>.
\<close>

theorem disk_delete_not_atomic:
  "(disk_ok s \<and> k \<in> set (keys s) \<and> paths s k = Some p \<and> fs s p = None
      \<longrightarrow> fst (DiskDict_delitem k s) = Inl (OSError p))
   \<and> (DiskDict_delitem k s = (Inl (OSError q), s')
      \<longrightarrow> k \<in> set (keys s') \<and> data s' k = None
          \<and> DiskDict_getitem k s' = (Inl (KeyError k), s'))"
proof (intro conjI impI)
  assume h: "disk_ok s \<and> k \<in> set (keys s) \<and> paths s k = Some p \<and> fs s p = None"
  then obtain a v where "metadata s k = Some a" and "data s k = Some v"
    by (auto simp: disk_ok_def store_ok_def)
  with h show "fst (DiskDict_delitem k s) = Inl (OSError p)"
    by (simp add: disk_delitem Let_def)
next
  assume d: "DiskDict_delitem k s = (Inl (OSError q), s')"
  then have k: "k \<in> set (keys s)"
    by (auto simp: disk_delitem split: if_splits)
  from d k obtain a where a: "metadata s k = Some a"
    by (auto simp: disk_delitem split: option.splits)
  from d k a have s': "s' = s\<lparr>heap := (heap s)(a := (heap s a)(''present'' \<mapsto> PyBool False)),
                             data := (data s)(k := None)\<rparr>"
    by (auto simp: disk_delitem Let_def split: option.splits fsnode.splits)
  show "k \<in> set (keys s')" using k by (simp add: s')
  show "data s' k = None" by (simp add: s')
  show "DiskDict_getitem k s' = (Inl (KeyError k), s')"
    using k by (simp add: s' DiskDict_getitem_def ModalDict_getitem_def disk_detect
        DiskDict_get_item_def data_getitem_def py_bind_def)
qed

theorem disk_delete_not_atomic_witness:
  "disk_ok video_disk_empty \<and> ''thumbnail'' \<in> set (keys video_disk_empty)
   \<and> paths video_disk_empty ''thumbnail'' = Some ''/data/video_1/thumb.jpg''
   \<and> fs video_disk_empty ''/data/video_1/thumb.jpg'' = None
   \<and> fst (DiskDict_delitem ''thumbnail'' video_disk_empty)
       = Inl (OSError ''/data/video_1/thumb.jpg'')
   \<and> data (snd (DiskDict_delitem ''thumbnail'' video_disk_empty)) ''thumbnail'' = None
   \<and> fst (DiskDict_getitem ''thumbnail'' (snd (DiskDict_delitem ''thumbnail'' video_disk_empty)))
       = Inl (KeyError ''thumbnail'')"
proof -
  let ?p = "''/data/video_1/thumb.jpg''"
  have h: "disk_ok video_disk_empty \<and> ''thumbnail'' \<in> set (keys video_disk_empty)
      \<and> paths video_disk_empty ''thumbnail'' = Some ?p \<and> fs video_disk_empty ?p = None"
    by (simp add: video_disk_empty_ok video_disk_empty_fields)
  obtain r s' where d: "DiskDict_delitem ''thumbnail'' video_disk_empty = (r, s')"
    by (cases "DiskDict_delitem ''thumbnail'' video_disk_empty")
  from disk_delete_not_atomic[of video_disk_empty "''thumbnail''" ?p ?p s'] h d
  have r: "r = Inl (OSError ?p)"
    by simp
  with disk_delete_not_atomic[of video_disk_empty "''thumbnail''" ?p ?p s'] d
  have "data s' ''thumbnail'' = None \<and> DiskDict_getitem ''thumbnail'' s' = (Inl (KeyError ''thumbnail''), s')"
    by blast
  with h d r show ?thesis
    by simp
qed

text \<open>
  Claim C6 fails in the code for a declared key with nothing cached and no file, once a
  delete of that key has failed. \<^verbatim>\<open>del_item\<close> is documented to set
  \<^verbatim>\<open>self.data[key]\<close> to \<^verbatim>\<open>None\<close>, but it removes the entry first and puts \<^verbatim>\<open>None\<close>
  back only after \<^verbatim>\<open>os.remove\<close> has returned. On the sample store whose thumbnail file
  is missing, \<^verbatim>\<open>del store['thumbnail']\<close> raises \<^verbatim>\<open>OSError\<close>; the key is still declared,
  no value is cached for it and its path does not exist, and \<^verbatim>\<open>store['thumbnail']\<close> then
  raises \<^verbatim>\<open>KeyError\<close> from \<^verbatim>\<open>self.data[key]\<close> where the claim has it return
  \<^verbatim>\<open>None\<close>.
\<close>

theorem disk_get_after_failed_delete:
  "DiskDict_new video_heap [''/data/video_1'' \<mapsto> Dir] video_doc video_schema
     = (Inr (), video_disk_empty)
   \<and> fst (DiskDict_delitem ''thumbnail'' video_disk_empty)
       = Inl (OSError ''/data/video_1/thumb.jpg'')
   \<and> ''thumbnail'' \<in> set (keys (snd (DiskDict_delitem ''thumbnail'' video_disk_empty)))
   \<and> data (snd (DiskDict_delitem ''thumbnail'' video_disk_empty)) ''thumbnail'' = None
   \<and> paths (snd (DiskDict_delitem ''thumbnail'' video_disk_empty)) ''thumbnail''
       = Some ''/data/video_1/thumb.jpg''
   \<and> fs (snd (DiskDict_delitem ''thumbnail'' video_disk_empty)) ''/data/video_1/thumb.jpg'' = None
   \<and> fst (DiskDict_getitem ''thumbnail'' (snd (DiskDict_delitem ''thumbnail'' video_disk_empty)))
       = Inl (KeyError ''thumbnail'')
   \<and> fst (DiskDict_getitem ''thumbnail'' (snd (DiskDict_delitem ''thumbnail'' video_disk_empty)))
       \<noteq> Inr PyNone"
proof -
  let ?s = "video_disk_empty\<lparr>heap := (heap video_disk_empty)
                (2 := (heap video_disk_empty 2)(''present'' \<mapsto> PyBool False)),
              data := (data video_disk_empty)(''thumbnail'' := None)\<rparr>"
  have d: "DiskDict_delitem ''thumbnail'' video_disk_empty
      = (Inl (OSError ''/data/video_1/thumb.jpg''), ?s)"
    by (simp add: disk_delitem Let_def video_disk_empty_fields)
  have g: "DiskDict_getitem ''thumbnail'' ?s = (Inl (KeyError ''thumbnail''), ?s)"
    by (simp add: DiskDict_getitem_def ModalDict_getitem_def disk_detect DiskDict_get_item_def
        data_getitem_def py_bind_def video_disk_empty_fields)
  show ?thesis
    unfolding d using video_disk_empty_new g
    by (simp add: video_disk_empty_fields)
qed

section \<open>What the calls write into the document\<close>

subsection \<open>The item stores\<close>

lemma present_apart_refl: "present_apart A h h"
  by (simp add: present_apart_def)

lemma store_frame_refl: "store_frame s s"
  by (simp add: store_frame_def present_apart_refl)

lemma store_frame_same:
  assumes "store_frame s t" and "heap t' = heap t" and "metadata t' = metadata t"
  shows "store_frame s t'"
  using assms by (simp add: store_frame_def)

lemma store_frame_setmeta:
  assumes "store_frame s t"
  shows "store_frame s (snd (metadata_setitem k ''present'' v t))"
proof (cases "metadata t k")
  case None
  with assms show ?thesis by (simp add: metadata_setitem_def)
next
  case (Some a)
  with assms have "a \<in> ran (metadata s)"
    by (auto simp: store_frame_def ran_def)
  with assms Some show ?thesis
    by (auto simp: metadata_setitem_def store_frame_def present_apart_def)
qed

lemma store_frame_detect: "store_frame s t \<Longrightarrow> store_frame s (snd (detect_keyerror k t))"
  by (simp add: detect_keyerror_def)

lemma store_frame_update:
  assumes "store_frame s t" and "\<And>k t. store_frame s t \<Longrightarrow> store_frame s (snd (ip k t))"
  shows "store_frame s (snd (update_item_metadata ip t))"
  unfolding update_item_metadata_def
  by (rule update_loop_inv[where P = "store_frame s"]) (simp_all add: assms store_frame_setmeta)

lemma store_frame_present_items:
  assumes "store_frame s t" and "\<And>k t. store_frame s t \<Longrightarrow> store_frame s (snd (ip k t))"
  shows "store_frame s (snd (present_items ip t))"
  unfolding present_items_def
proof (rule py_bind_inv[where P = "store_frame s"])
  show "store_frame s t" by (rule assms(1))
next
  fix t' assume "store_frame s t'"
  then show "store_frame s (snd (update_item_metadata ip t'))"
    by (rule store_frame_update) (rule assms(2))
next
  fix x :: unit and t' assume "store_frame s t'"
  then show "store_frame s (snd (case present_filter (keys t') t' of
      Inl e \<Rightarrow> (Inl e, t') | Inr r \<Rightarrow> (Inr (set r), t')))"
    by (simp split: sum.splits)
qed

lemma store_frame_absent_items:
  assumes "store_frame s t" and "\<And>k t. store_frame s t \<Longrightarrow> store_frame s (snd (ip k t))"
  shows "store_frame s (snd (absent_items ip t))"
  unfolding absent_items_def
proof (rule py_bind_inv[where P = "store_frame s"])
  show "store_frame s t" by (rule assms(1))
next
  fix t' assume "store_frame s t'"
  then show "store_frame s (snd (present_items ip t'))"
    by (rule store_frame_present_items) (rule assms(2))
next
  fix x :: "string set" and t' assume "store_frame s t'"
  then show "store_frame s (snd (py_return (set (keys t) - x) t'))"
    by (simp add: py_return_def)
qed

lemma store_frame_getitem:
  assumes "store_frame s t" and "\<And>k t. store_frame s t \<Longrightarrow> store_frame s (snd (g k t))"
  shows "store_frame s (snd (ModalDict_getitem g k t))"
  unfolding ModalDict_getitem_def
  by (rule py_bind_inv[where P = "store_frame s"]) (simp_all add: assms store_frame_detect)

lemma store_frame_setitem:
  assumes "store_frame s t" and "\<And>k v t. store_frame s t \<Longrightarrow> store_frame s (snd (g k v t))"
  shows "store_frame s (snd (ModalDict_setitem g k v t))"
  unfolding ModalDict_setitem_def
proof (rule py_bind_inv[where P = "store_frame s"])
  show "store_frame s t" by (rule assms(1))
next
  fix t' assume "store_frame s t'"
  then show "store_frame s (snd (detect_keyerror k t'))" by (rule store_frame_detect)
next
  fix x :: unit and t' assume t': "store_frame s t'"
  show "store_frame s (snd (py_bind (metadata_setitem k ''present'' (PyBool True))
           (\<lambda>_. g k v) t'))"
    by (rule py_bind_inv[where P = "store_frame s"]) (simp_all add: t' assms(2) store_frame_setmeta)
qed

lemma store_frame_delitem:
  assumes "store_frame s t" and "\<And>k t. store_frame s t \<Longrightarrow> store_frame s (snd (g k t))"
  shows "store_frame s (snd (ModalDict_delitem g k t))"
  unfolding ModalDict_delitem_def
proof (rule py_bind_inv[where P = "store_frame s"])
  show "store_frame s t" by (rule assms(1))
next
  fix t' assume "store_frame s t'"
  then show "store_frame s (snd (detect_keyerror k t'))" by (rule store_frame_detect)
next
  fix x :: unit and t' assume t': "store_frame s t'"
  show "store_frame s (snd (py_bind (metadata_setitem k ''present'' (PyBool False))
           (\<lambda>_. g k) t'))"
    by (rule py_bind_inv[where P = "store_frame s"]) (simp_all add: t' assms(2) store_frame_setmeta)
qed

lemma py_bind_return_state: "snd (py_bind m (\<lambda>y. py_return (f y)) t) = snd (m t)"
  by (cases "m t") (auto simp: py_bind_def py_return_def split: sum.splits)

lemma memory_calls_snd:
  "snd (MemoryDict_calls (x # xs) t) = snd (MemoryDict_calls xs (snd (MemoryDict_call x t)))"
  by (cases "MemoryDict_call x t"; cases "MemoryDict_calls xs (snd (MemoryDict_call x t))") simp

lemma disk_calls_snd:
  "snd (DiskDict_calls (x # xs) t) = snd (DiskDict_calls xs (snd (DiskDict_call x t)))"
  by (cases "DiskDict_call x t"; cases "DiskDict_calls xs (snd (DiskDict_call x t))") simp

lemma memory_hooks_frame:
  assumes "store_frame s t"
  shows "store_frame s (snd (MemoryDict_get_item k t))"
    and "store_frame s (snd (MemoryDict_set_item k v t))"
    and "store_frame s (snd (MemoryDict_del_item k t))"
    and "store_frame s (snd (MemoryDict_item_present k t))"
  using assms
  by (simp_all add: MemoryDict_get_item_def MemoryDict_set_item_def MemoryDict_del_item_def
      detect_keyerror_def data_getitem_def py_bind_def store_frame_def split: option.splits)

lemma memory_call_frame:
  assumes "store_frame s t"
  shows "store_frame s (snd (MemoryDict_call x t))"
proof -
  have r: "\<And>m f. store_frame s (snd (m t)) \<Longrightarrow>
      store_frame s (snd (py_bind m (\<lambda>y. py_return (f y)) t))"
    by (simp add: py_bind_return_state)
  show ?thesis
  proof (cases x)
    case (Getitem k)
    show ?thesis unfolding Getitem MemoryDict_call.simps MemoryDict_getitem_def
      by (intro r store_frame_getitem assms memory_hooks_frame)
  next
    case (Setitem k v)
    show ?thesis unfolding Setitem MemoryDict_call.simps MemoryDict_setitem_def
      by (intro r store_frame_setitem assms memory_hooks_frame)
  next
    case (Delitem k)
    show ?thesis unfolding Delitem MemoryDict_call.simps MemoryDict_delitem_def
      by (intro r store_frame_delitem assms memory_hooks_frame)
  next
    case (ItemPresent k)
    show ?thesis unfolding ItemPresent MemoryDict_call.simps
      by (intro r assms memory_hooks_frame)
  next
    case PresentItems
    show ?thesis unfolding PresentItems MemoryDict_call.simps MemoryDict_present_items_def
      by (intro r store_frame_present_items assms memory_hooks_frame)
  next
    case AbsentItems
    show ?thesis unfolding AbsentItems MemoryDict_call.simps MemoryDict_absent_items_def
      by (intro r store_frame_absent_items assms memory_hooks_frame)
  qed
qed

lemma memory_calls_frame:
  "store_frame s t \<Longrightarrow> store_frame s (snd (MemoryDict_calls xs t))"
proof (induction xs arbitrary: t)
  case Nil
  then show ?case by simp
next
  case (Cons x xs)
  from memory_call_frame[OF Cons.prems, of x] have "store_frame s (snd (MemoryDict_call x t))" .
  from Cons.IH[OF this] show ?case
    by (simp only: memory_calls_snd)
qed

lemma disk_hooks_frame:
  assumes "store_frame s t"
  shows "store_frame s (snd (DiskDict_get_item k t))"
    and "store_frame s (snd (DiskDict_set_item k v t))"
    and "store_frame s (snd (DiskDict_del_item k t))"
    and "store_frame s (snd (DiskDict_item_present k t))"
proof -
  have same: "\<And>t'. heap t' = heap t \<and> metadata t' = metadata t \<Longrightarrow> store_frame s t'"
    using assms by (simp add: store_frame_def)
  show "store_frame s (snd (DiskDict_item_present k t))"
    using assms by simp
  show "store_frame s (snd (DiskDict_get_item k t))"
    by (rule same)
      (simp add: DiskDict_get_item_def data_getitem_def DiskDict_item_present_def
        DiskDict_load_item_def py_bind_def py_return_def split: option.splits sum.splits)
  show "store_frame s (snd (DiskDict_set_item k v t))"
    by (rule same)
      (simp add: DiskDict_set_item_def DiskDict_save_item_def py_bind_def
        split: option.splits save_fn.splits prod.splits)
  show "store_frame s (snd (DiskDict_del_item k t))"
    by (rule same)
      (simp add: DiskDict_del_item_def os_remove_def py_bind_def
        split: option.splits fsnode.splits)
qed

lemma disk_call_frame:
  assumes "store_frame s t"
  shows "store_frame s (snd (DiskDict_call x t))"
proof -
  have r: "\<And>m f. store_frame s (snd (m t)) \<Longrightarrow>
      store_frame s (snd (py_bind m (\<lambda>y. py_return (f y)) t))"
    by (simp add: py_bind_return_state)
  show ?thesis
  proof (cases x)
    case (Getitem k)
    show ?thesis unfolding Getitem DiskDict_call.simps DiskDict_getitem_def
      by (intro r store_frame_getitem assms disk_hooks_frame)
  next
    case (Setitem k v)
    show ?thesis unfolding Setitem DiskDict_call.simps DiskDict_setitem_def
      by (intro r store_frame_setitem assms disk_hooks_frame)
  next
    case (Delitem k)
    show ?thesis unfolding Delitem DiskDict_call.simps DiskDict_delitem_def
      by (intro r store_frame_delitem assms disk_hooks_frame)
  next
    case (ItemPresent k)
    show ?thesis unfolding ItemPresent DiskDict_call.simps
      by (intro r assms disk_hooks_frame)
  next
    case PresentItems
    show ?thesis unfolding PresentItems DiskDict_call.simps DiskDict_present_items_def
      by (intro r store_frame_present_items assms disk_hooks_frame)
  next
    case AbsentItems
    show ?thesis unfolding AbsentItems DiskDict_call.simps DiskDict_absent_items_def
      by (intro r store_frame_absent_items assms disk_hooks_frame)
  qed
qed

lemma disk_calls_frame:
  "store_frame s t \<Longrightarrow> store_frame s (snd (DiskDict_calls xs t))"
proof (induction xs arbitrary: t)
  case Nil
  then show ?case by simp
next
  case (Cons x xs)
  from disk_call_frame[OF Cons.prems, of x] have "store_frame s (snd (DiskDict_call x t))" .
  from Cons.IH[OF this] show ?case
    by (simp only: disk_calls_snd)
qed

subsection \<open>The constructors\<close>

lemma dict_comp_val:
  "dict_comp f ks = Inr m \<Longrightarrow> k \<in> set ks \<Longrightarrow> \<exists>v. f k = Inr v \<and> m k = Some v"
proof (induction ks arbitrary: m)
  case Nil
  then show ?case by simp
next
  case (Cons k0 ks)
  from Cons.prems(1) obtain v0 m' where f: "f k0 = Inr v0" and m': "dict_comp f ks = Inr m'"
    and m: "m = m'(k0 \<mapsto> v0)"
    by (auto split: sum.splits)
  show ?case
  proof (cases "k = k0")
    case True
    with f m show ?thesis by simp
  next
    case False
    with Cons.prems(2) have "k \<in> set ks" by simp
    from Cons.IH[OF m' this] False m show ?thesis by simp
  qed
qed

lemma modal_init_metadata:
  assumes "ModalDict_init m doc schema s = (Inr (), s')"
  shows "metadata s' \<subseteq>\<^sub>m items doc"
proof -
  let ?ks = "remdups (map fst (filter (\<lambda>(k, v). mode v = m) schema))"
  from assms obtain md d where md: "dict_comp (subscript (items doc)) ?ks = Inr md"
    and s': "s' = s\<lparr>mongo_doc := doc, keys := ?ks, metadata := md, data := d\<rparr>"
    by (auto simp: ModalDict_init_def Let_def split: sum.splits)
  have "md k = items doc k" if "k \<in> dom md" for k
  proof -
    from that dict_comp_dom[OF md] have "k \<in> set ?ks" by simp
    from dict_comp_val[OF md this] show ?thesis
      by (auto simp: subscript_def split: option.splits)
  qed
  then show ?thesis
    by (simp add: s' map_le_def)
qed

lemma memory_new_frame:
  assumes "MemoryDict_new h doc schema = (Inr (), s)"
  shows "metadata s \<subseteq>\<^sub>m items doc \<and> present_apart (ran (metadata s)) h (heap s)"
proof -
  from assms[unfolded MemoryDict_new_def MemoryDict_init_def]
  obtain s1 s2 where i: "ModalDict_init ''memory'' doc schema
        \<lparr> heap = h, mongo_doc = doc, keys = [], metadata = Map.empty, data = Map.empty \<rparr>
        = (Inr (), s1)"
    and l: "(case dict_comp (\<lambda>k. case subscript (items doc) k of
                                          Inl e \<Rightarrow> Inl e
                                        | Inr a \<Rightarrow> subscript (heap s1 a) ''data'') (keys s1) of
                    Inl e \<Rightarrow> (Inl e, s1)
                  | Inr d \<Rightarrow> (Inr (), s1\<lparr>data := d\<rparr>)) = (Inr (), s2)"
    and u: "update_item_metadata MemoryDict_item_present s2 = (Inr (), s)"
    by (elim py_bind_InrE) auto
  from l have s2: "heap s2 = heap s1" "metadata s2 = metadata s1"
    by (auto split: sum.splits)
  have h1: "heap s1 = h"
    using modal_init_result(3)[OF i] by simp
  have "store_frame s2 (snd (update_item_metadata MemoryDict_item_present s2))"
    by (rule store_frame_update[OF store_frame_refl]) (rule memory_hooks_frame)
  with u have "store_frame s2 s" by simp
  with s2 h1 modal_init_metadata[OF i] show ?thesis
    by (simp add: store_frame_def)
qed

lemma disk_new_frame:
  assumes "DiskDict_new h f doc schema = (Inr (), s)"
  shows "metadata s \<subseteq>\<^sub>m items doc \<and> present_apart (ran (metadata s)) h (heap s)"
proof -
  from assms[unfolded DiskDict_new_def DiskDict_init_def]
  obtain s1 s2 where i: "ModalDict_init ''disk'' doc schema
        \<lparr> heap = h, mongo_doc = doc, keys = [], metadata = Map.empty, data = Map.empty,
          fs = f, load_funcs = Map.empty, save_funcs = Map.empty, paths = Map.empty \<rparr>
        = (Inr (), s1)"
    and l: "(case dict_comp (schema_entry schema load_func ''load_func'') (keys s1) of
          Inl e \<Rightarrow> (Inl e, s1)
        | Inr lf \<Rightarrow>
        (case dict_comp (schema_entry schema save_func ''save_func'') (keys s1) of
          Inl e \<Rightarrow> (Inl e, s1\<lparr>load_funcs := lf\<rparr>)
        | Inr sf \<Rightarrow>
        (case dict_comp (\<lambda>k. case schema_entry schema filename ''filename'' k of
                               Inl e \<Rightarrow> Inl e
                             | Inr fn \<Rightarrow> Inr (os_path_join (root doc) fn)) (keys s1) of
          Inl e \<Rightarrow> (Inl e, s1\<lparr>load_funcs := lf, save_funcs := sf\<rparr>)
        | Inr ps \<Rightarrow>
        (case dict_comp (\<lambda>k. Inr PyNone) (keys s1) of
          Inl e \<Rightarrow> (Inl e, s1\<lparr>load_funcs := lf, save_funcs := sf, paths := ps\<rparr>)
        | Inr d \<Rightarrow>
            (Inr (), s1\<lparr>load_funcs := lf, save_funcs := sf, paths := ps, data := d\<rparr>)))))
       = (Inr (), s2)"
    and u: "update_item_metadata DiskDict_item_present s2 = (Inr (), s)"
    by (elim py_bind_InrE) auto
  from l have s2: "heap s2 = heap s1" "metadata s2 = metadata s1"
    by (auto split: sum.splits)
  have h1: "heap s1 = h"
    using modal_init_result(3)[OF i] by simp
  have "store_frame s2 (snd (update_item_metadata DiskDict_item_present s2))"
    by (rule store_frame_update[OF store_frame_refl]) (rule disk_hooks_frame)
  with u have "store_frame s2 s" by simp
  with s2 h1 modal_init_metadata[OF i] show ?thesis
    by (simp add: store_frame_def)
qed

subsection \<open>The registry\<close>

lemma registry_call_frame: "registry_frame c [x] (heap (registry_call x c))"
proof (cases x)
  case (Get args)
  then show ?thesis by (simp add: registry_frame_def)
next
  case (Add args)
  show ?thesis
    unfolding Add registry_call.simps add_state
    by (auto simp: registry_frame_def added_to_def split: sum.splits prod.splits if_splits)
qed

lemma registry_calls_frame: "registry_frame c xs (heap (registry_calls xs c))"
proof (induction xs arbitrary: c)
  case Nil
  then show ?case by (simp add: registry_frame_def)
next
  case (Cons x xs)
  obtain h where h: "registry_call x c = c\<lparr>heap := h\<rparr>"
    using registry_call_static by blast
  have 1: "registry_frame c [x] h"
    using registry_call_frame[of c x] by (simp add: h)
  have 2: "registry_frame (c\<lparr>heap := h\<rparr>) xs (heap (registry_calls xs (c\<lparr>heap := h\<rparr>)))"
    by (rule Cons.IH)
  show ?case
    unfolding registry_calls.simps h
  proof (unfold registry_frame_def, intro allI impI)
    fix a j
    let ?h' = "heap (registry_calls xs (c\<lparr>heap := h\<rparr>))"
    assume ne: "?h' a j \<noteq> heap c a j"
    show "j \<in> added_to c a (x # xs) \<and> ?h' a j = Some (PyStr (to_full_id c (PyStr j)))"
    proof (cases "?h' a j = h a j")
      case True
      with ne 1 show ?thesis
        by (auto simp: registry_frame_def added_to_Cons[of c a x xs])
    next
      case False
      with 2 show ?thesis
        by (auto simp: registry_frame_def added_to_Cons[of c a x xs])
    qed
  qed
qed

subsection \<open>The frame of every call\<close>

text \<open>
  Claim C1, as amended. The stores and the registry hold references into the document:
  \<^verbatim>\<open>self.metadata[k]\<close> is the dictionary \<^verbatim>\<open>mongo_doc['items'][k]\<close> itself and
  \<^verbatim>\<open>self.childtype_dicts\<close> is \<^verbatim>\<open>mongo_doc['children']\<close> itself; only the value cache
  \<^verbatim>\<open>self.data\<close> is the store's own. Every sequence of calls on a memory store or on a
  disk store (\<^verbatim>\<open>store[k]\<close>, \<^verbatim>\<open>store[k] = v\<close>, \<^verbatim>\<open>del store[k]\<close>,
  \<^verbatim>\<open>item_present\<close>, \<^verbatim>\<open>present_items\<close>, \<^verbatim>\<open>absent_items\<close>) leaves the heap of the
  document as it was except for the \<^verbatim>\<open>'present'\<close> entries of the metadata dictionaries
  the store refers to, and so does each constructor. Every sequence of \<^verbatim>\<open>get\<close> and
  \<^verbatim>\<open>add\<close> calls on a registry leaves the heap as it was except for the entries
  \<^verbatim>\<open>raw_id: to_full_id(raw_id)\<close> that its \<^verbatim>\<open>add\<close> calls put into the address tables;
  the registry's constructor writes nothing.
\<close>

theorem document_writes:
  "store_frame s (snd (MemoryDict_calls xs s))
   \<and> store_frame d (snd (DiskDict_calls ys d))
   \<and> registry_frame c zs (heap (registry_calls zs c))
   \<and> (MemoryDict_new h doc schema = (Inr (), s') \<longrightarrow>
        metadata s' \<subseteq>\<^sub>m items doc \<and> present_apart (ran (metadata s')) h (heap s'))
   \<and> (DiskDict_new h f doc schema = (Inr (), d') \<longrightarrow>
        metadata d' \<subseteq>\<^sub>m items doc \<and> present_apart (ran (metadata d')) h (heap d'))
   \<and> (ChildContainer_init pid sch doc h = Inr c' \<longrightarrow>
        childtype_dicts c' = children doc \<and> heap c' = h)"
proof (intro conjI impI)
  show "store_frame s (snd (MemoryDict_calls xs s))"
    by (rule memory_calls_frame[OF store_frame_refl])
  show "store_frame d (snd (DiskDict_calls ys d))"
    by (rule disk_calls_frame[OF store_frame_refl])
  show "registry_frame c zs (heap (registry_calls zs c))"
    by (rule registry_calls_frame)
next
  assume a: "MemoryDict_new h doc schema = (Inr (), s')"
  from memory_new_frame[OF a] show "metadata s' \<subseteq>\<^sub>m items doc"
    and "present_apart (ran (metadata s')) h (heap s')" by simp_all
next
  assume a: "DiskDict_new h f doc schema = (Inr (), d')"
  from disk_new_frame[OF a] show "metadata d' \<subseteq>\<^sub>m items doc"
    and "present_apart (ran (metadata d')) h (heap d')" by simp_all
next
  assume a: "ChildContainer_init pid sch doc h = Inr c'"
  then show "childtype_dicts c' = children doc" and "heap c' = h"
    by (auto simp: ChildContainer_init_def split: if_splits)
qed

theorem document_writes_witness:
  "MemoryDict_new video_heap video_doc video_schema = (Inr (), video_memory)
   \<and> ChildContainer_init ''video_1'' \<lparr>contains = [frame_cls]\<rparr> video_doc video_heap
       = Inr video_container
   \<and> metadata video_memory \<subseteq>\<^sub>m items video_doc
   \<and> childtype_dicts video_container = children video_doc
   \<and> heap (snd (MemoryDict_calls
              [Setitem ''caption'' (PyStr ''a dog''), Delitem ''caption'', PresentItems]
              video_memory)) 1 ''data'' = Some (PyStr ''a cat'')
   \<and> heap (snd (MemoryDict_calls
              [Setitem ''caption'' (PyStr ''a dog''), Delitem ''caption'', PresentItems]
              video_memory)) 3 = video_heap 3
   \<and> heap (registry_calls [Add [PyStr ''1'']] video_container) 3 ''7''
       = Some (PyStr ''video_1/7'')
   \<and> heap (registry_calls [Add [PyStr ''1'']] video_container) 1 = video_heap 1"
proof -
  let ?xs = "[Setitem ''caption'' (PyStr ''a dog''), Delitem ''caption'', PresentItems]"
  let ?zs = "[Add [PyStr ''1'']]"
  note t = document_writes[of video_memory ?xs video_disk "[]" video_container ?zs
      video_heap video_doc video_schema video_memory video_fs video_disk
      "''video_1''" "\<lparr>contains = [frame_cls]\<rparr>" video_container]
  from t video_memory_new have m: "metadata video_memory \<subseteq>\<^sub>m items video_doc"
    and p0: "present_apart (ran (metadata video_memory)) video_heap (heap video_memory)"
    by blast+
  from t have p1: "present_apart (ran (metadata video_memory)) (heap video_memory)
      (heap (snd (MemoryDict_calls ?xs video_memory)))"
    by (simp add: store_frame_def)
  from t video_container_init have cd: "childtype_dicts video_container = children video_doc"
    by blast
  from t have rf: "registry_frame video_container ?zs (heap (registry_calls ?zs video_container))"
    by blast
  have r: "ran (metadata video_memory) = {1}"
    by (simp add: video_memory_fields)
  have 1: "heap (snd (MemoryDict_calls ?xs video_memory)) 1 ''data'' = Some (PyStr ''a cat'')"
    using p0 p1 by (simp add: present_apart_def video_heap_def)
  have 2: "heap (snd (MemoryDict_calls ?xs video_memory)) 3 = video_heap 3"
    using p0 p1 unfolding r present_apart_def by (metis insert_iff empty_iff numeral_eq_one_iff semiring_norm(86))
  have sa: "sanitize video_container [PyStr ''1''] = Inr (frame_cls, ''1'')"
    by (simp add: sanitize_def get_only_childtype_def video_defs id_defs)
  have g: "get_childtype_dict video_container frame_cls = Inr 3"
    by (simp add: get_childtype_dict_def video_defs)
  have ad: "\<And>a. added_to video_container a ?zs = (if a = 3 then {''1''} else {})"
    by (auto simp: added_to_def sa g)
  have hc: "heap video_container = video_heap"
    by (simp add: video_defs)
  have 3: "heap (registry_calls ?zs video_container) 3 ''7'' = Some (PyStr ''video_1/7'')"
  proof (rule ccontr)
    assume "heap (registry_calls ?zs video_container) 3 ''7'' \<noteq> Some (PyStr ''video_1/7'')"
    then have "heap (registry_calls ?zs video_container) 3 ''7'' \<noteq> heap video_container 3 ''7''"
      by (simp add: hc video_heap_def)
    with rf have "''7'' \<in> added_to video_container 3 ?zs"
      unfolding registry_frame_def by blast
    then show False by (simp add: ad)
  qed
  have 4: "heap (registry_calls ?zs video_container) 1 = video_heap 1"
  proof (rule ext, rule ccontr)
    fix j
    assume "heap (registry_calls ?zs video_container) 1 j \<noteq> video_heap 1 j"
    then have "heap (registry_calls ?zs video_container) 1 j \<noteq> heap video_container 1 j"
      by (simp add: hc)
    with rf have "j \<in> added_to video_container 1 ?zs"
      unfolding registry_frame_def by blast
    then show False by (simp add: ad)
  qed
  from video_memory_new video_container_init m cd 1 2 3 4 show ?thesis
    by blast
qed

text \<open>
  Claim C1 as stated fails: on the sample document, constructing the memory store sets
  \<^verbatim>\<open>mongo_doc['items']['caption']['present']\<close> from \<^verbatim>\<open>False\<close> to \<^verbatim>\<open>True\<close>,
  \<^verbatim>\<open>del store['caption']\<close> sets it back to \<^verbatim>\<open>False\<close>, and \<^verbatim>\<open>add(Frame, '1')\<close> puts
  the entry \<^verbatim>\<open>'1'\<close> into \<^verbatim>\<open>mongo_doc['children']['Frame']\<close>.
\<close>

theorem document_is_mutated:
  "doc_contents (heap (snd (MemoryDict_new video_heap video_doc video_schema))) video_doc
     \<noteq> doc_contents video_heap video_doc
   \<and> doc_contents (heap (snd (MemoryDict_calls [Delitem ''caption''] video_memory))) video_doc
     \<noteq> doc_contents (heap video_memory) video_doc
   \<and> doc_contents (heap (snd (ChildContainer_add [PyCls frame_cls, PyStr ''1''] video_container)))
        video_doc
     \<noteq> doc_contents (heap video_container) video_doc"
proof (intro conjI notI)
  assume "doc_contents (heap (snd (MemoryDict_new video_heap video_doc video_schema))) video_doc
     = doc_contents video_heap video_doc"
  then have "fst (snd (doc_contents (heap video_memory) video_doc)) ''caption''
      = fst (snd (doc_contents video_heap video_doc)) ''caption''"
    by (simp add: video_memory_def)
  then have "heap video_memory 1 ''present'' = video_heap 1 ''present''"
    by (simp add: doc_contents_def video_doc_def)
  with video_memory_fields(4) show False
    by (simp add: video_heap_def)
next
  let ?s = "snd (MemoryDict_calls [Delitem ''caption''] video_memory)"
  have d: "heap ?s 1 ''present'' = Some (PyBool False)"
    by (simp add: memory_delitem video_memory_fields py_bind_def py_return_def)
  assume "doc_contents (heap ?s) video_doc = doc_contents (heap video_memory) video_doc"
  then have "fst (snd (doc_contents (heap ?s) video_doc)) ''caption''
      = fst (snd (doc_contents (heap video_memory) video_doc)) ''caption''"
    by simp
  then have "heap ?s 1 ''present'' = heap video_memory 1 ''present''"
    by (simp add: doc_contents_def video_doc_def)
  with d video_memory_fields(4) show False
    by simp
next
  let ?c = "snd (ChildContainer_add [PyCls frame_cls, PyStr ''1''] video_container)"
  have a: "heap ?c 3 ''1'' = Some (PyStr ''video_1/1'')"
    by (simp add: ChildContainer_add_def sanitize_def is_valid_childtype_def
        get_childtype_dict_def video_defs id_defs)
  assume "doc_contents (heap ?c) video_doc = doc_contents (heap video_container) video_doc"
  then have "snd (snd (doc_contents (heap ?c) video_doc)) ''Frame''
      = snd (snd (doc_contents (heap video_container) video_doc)) ''Frame''"
    by simp
  then have "heap ?c 3 ''1'' = heap video_container 3 ''1''"
    by (simp add: doc_contents_def video_doc_def)
  with a show False
    by (simp add: video_defs)
qed

subsection \<open>Calls keep a memory store well formed\<close>

lemma memory_present_items_fields:
  "keys (snd (MemoryDict_present_items s)) = keys s
   \<and> metadata (snd (MemoryDict_present_items s)) = metadata s
   \<and> data (snd (MemoryDict_present_items s)) = data s"
proof -
  obtain r t where u: "update_loop MemoryDict_item_present (keys s) s = (r, t)"
    by (cases "update_loop MemoryDict_item_present (keys s) s")
  with memory_update_loop_fields[of "keys s" s]
  have "keys t = keys s \<and> metadata t = metadata s \<and> data t = data s"
    by simp
  with u show ?thesis
    by (cases r)
      (simp_all add: MemoryDict_present_items_def present_items_def update_item_metadata_def
        py_bind_def split: sum.splits)
qed

lemma memory_absent_items_fields:
  "keys (snd (MemoryDict_absent_items s)) = keys s
   \<and> metadata (snd (MemoryDict_absent_items s)) = metadata s
   \<and> data (snd (MemoryDict_absent_items s)) = data s"
proof -
  have "snd (MemoryDict_absent_items s) = snd (MemoryDict_present_items s)"
    by (simp add: MemoryDict_absent_items_def absent_items_def MemoryDict_present_items_def
        py_bind_return_state)
  with memory_present_items_fields[of s] show ?thesis
    by simp
qed

lemma memory_call_ok:
  assumes "store_ok s"
  shows "store_ok (snd (MemoryDict_call x s))"
proof (cases x)
  case (Getitem k)
  with assms show ?thesis
    by (simp add: py_bind_return_state memory_getitem split: option.splits)
next
  case (Setitem k v)
  with assms show ?thesis
    by (auto simp: py_bind_return_state memory_setitem store_ok_def split: option.splits)
next
  case (Delitem k)
  with assms show ?thesis
    by (auto simp: py_bind_return_state memory_delitem store_ok_def split: option.splits)
next
  case (ItemPresent k)
  with assms show ?thesis
    by (simp add: py_bind_return_state)
next
  case PresentItems
  with assms memory_present_items_fields[of s] show ?thesis
    by (simp add: py_bind_return_state store_ok_def)
next
  case AbsentItems
  with assms memory_absent_items_fields[of s] show ?thesis
    by (simp add: py_bind_return_state store_ok_def)
qed

lemma memory_calls_ok: "store_ok s \<Longrightarrow> store_ok (snd (MemoryDict_calls xs s))"
proof (induction xs arbitrary: s)
  case Nil
  then show ?case by simp
next
  case (Cons x xs)
  from Cons.IH[OF memory_call_ok[OF Cons.prems, of x]] show ?case
    by (simp only: memory_calls_snd)
qed

subsection \<open>Calls that return keep a disk store well formed\<close>

lemma disk_present_items_fields:
  "keys (snd (DiskDict_present_items s)) = keys s
   \<and> metadata (snd (DiskDict_present_items s)) = metadata s
   \<and> data (snd (DiskDict_present_items s)) = data s
   \<and> load_funcs (snd (DiskDict_present_items s)) = load_funcs s
   \<and> save_funcs (snd (DiskDict_present_items s)) = save_funcs s
   \<and> paths (snd (DiskDict_present_items s)) = paths s"
proof -
  obtain r t where u: "update_loop DiskDict_item_present (keys s) s = (r, t)"
    by (cases "update_loop DiskDict_item_present (keys s) s")
  with disk_update_loop_fields[of "keys s" s]
  have "keys t = keys s \<and> metadata t = metadata s \<and> data t = data s
      \<and> load_funcs t = load_funcs s \<and> save_funcs t = save_funcs s \<and> paths t = paths s"
    by simp
  with u show ?thesis
    by (cases r)
      (simp_all add: DiskDict_present_items_def present_items_def update_item_metadata_def
        py_bind_def split: sum.splits)
qed

lemma disk_ok_fields:
  assumes "disk_ok s" and "keys t = keys s" and "metadata t = metadata s"
    and "load_funcs t = load_funcs s" and "save_funcs t = save_funcs s" and "paths t = paths s"
    and "dom (data s) \<subseteq> dom (data t)"
  shows "disk_ok t"
  using assms unfolding disk_ok_def store_ok_def by (metis domIff subsetD)

lemma disk_getitem_ok:
  assumes "disk_ok s"
  shows "disk_ok (snd (DiskDict_getitem k s))"
  by (rule disk_ok_fields[OF assms])
    (auto simp: DiskDict_getitem_def ModalDict_getitem_def DiskDict_get_item_def disk_detect
      data_getitem_def DiskDict_item_present_def DiskDict_load_item_def py_bind_def py_return_def
      split: option.splits sum.splits if_splits)

lemma disk_setitem_ok:
  assumes "disk_ok s"
  shows "disk_ok (snd (DiskDict_setitem k v s))"
  by (rule disk_ok_fields[OF assms])
    (auto simp: DiskDict_setitem_def ModalDict_setitem_def DiskDict_set_item_def disk_detect
      metadata_setitem_def DiskDict_save_item_def py_bind_def
      split: option.splits sum.splits if_splits save_fn.splits prod.splits)

lemma disk_delitem_ok:
  assumes "disk_ok s" and "fst (DiskDict_delitem k s) = Inr ()"
  shows "disk_ok (snd (DiskDict_delitem k s))"
  using assms(2)
  by (intro disk_ok_fields[OF assms(1)])
    (auto simp: disk_delitem Let_def split: option.splits if_splits fsnode.splits)

end
